theory Spec2Isabelle
  imports Complex_Main "HOL-Library.Word" "HOL-Library.Signed_Division"
begin

section \<open>The FLUX command-line driver (main.c)\<close>

text \<open>
  A shallow embedding of \<^verbatim>\<open>main.c\<close>: the progress callbacks, the option loop,
  the validation of the arguments and the load / generate / save pipeline of
  \<^verbatim>\<open>main\<close>. Everything the program does to the outside world (text written
  to a stream, calls into the inference engine, files opened and closed) is
  recorded, in program order, in a list of events. What the outside world
  answers (whether the model loads, what a file holds, what the engine returns,
  the clock) is read from an environment record.

  The build modelled is the one without \<^verbatim>\<open>USE_METAL\<close>, on an LP64 platform:
  \<^verbatim>\<open>int\<close> is 32 bits; \<^verbatim>\<open>long\<close>, \<^verbatim>\<open>size_t\<close>, \<^verbatim>\<open>int64_t\<close> and \<^verbatim>\<open>time_t\<close>
  are 64 bits; a conversion to a narrower integer keeps the low bits.

  Of the C library the model takes for granted that \<^verbatim>\<open>malloc\<close> returns a
  buffer and that \<^verbatim>\<open>fseek\<close> and \<^verbatim>\<open>ftell\<close> succeed on a file that was opened;
  \<^verbatim>\<open>main\<close> does not check them either. The results of \<^verbatim>\<open>atoi\<close>,
  \<^verbatim>\<open>atoll\<close> and \<^verbatim>\<open>atof\<close> come with the options.
\<close>

subsection \<open>Machine types\<close>

type_synonym c_int = "32 word"
type_synonym c_long = "64 word"
type_synonym byte = "8 word"

text \<open>
  A \<^verbatim>\<open>float\<close> or \<^verbatim>\<open>double\<close> value: a real number, an infinity or a NaN.
  Rounding is not modelled; the program only compares such values with the
  constants 0 and 1 and prints them.
\<close>

datatype c_float = Finite real | PosInf | NegInf | NaN

text \<open>The comparison \<^verbatim>\<open><\<close> of C on floating-point values: false when either side is a NaN.\<close>

fun flt_less :: "c_float \<Rightarrow> c_float \<Rightarrow> bool" where
  "flt_less NaN _ = False"
| "flt_less _ NaN = False"
| "flt_less (Finite x) (Finite y) = (x < y)"
| "flt_less (Finite x) PosInf = True"
| "flt_less (Finite x) NegInf = False"
| "flt_less PosInf _ = False"
| "flt_less NegInf NegInf = False"
| "flt_less NegInf _ = True"

text \<open>The remainder \<^verbatim>\<open>%\<close> of C on \<^verbatim>\<open>int\<close>: the quotient is truncated towards zero.\<close>

definition c_rem :: "c_int \<Rightarrow> c_int \<Rightarrow> c_int" where
  "c_rem a b = word_of_int (sint a smod sint b)"

subsection \<open>Formatting\<close>

definition nl :: string where
  "nl = [CHR 0x0A]"

function dec_nat :: "nat \<Rightarrow> string" where
  "dec_nat n =
     (if n < 10 then [''0123456789'' ! n]
      else dec_nat (n div 10) @ [''0123456789'' ! (n mod 10)])"
  by pat_completeness auto
termination
  by (relation "measure id") auto

declare dec_nat.simps [simp del]

text \<open>The conversions \<^verbatim>\<open>%d\<close> and \<^verbatim>\<open>%lld\<close> of printf.\<close>

definition dec_int :: "int \<Rightarrow> string" where
  "dec_int k = (if k < 0 then CHR ''-'' # dec_nat (nat (- k)) else dec_nat (nat k))"

definition fmt_d :: "c_int \<Rightarrow> string" where
  "fmt_d v = dec_int (sint v)"

definition fmt_lld :: "c_long \<Rightarrow> string" where
  "fmt_lld v = dec_int (sint v)"

text \<open>
  The conversion \<^verbatim>\<open>%s\<close>. A null pointer is undefined behaviour there; the model
  prints what glibc prints.
\<close>

definition fmt_s :: "string option \<Rightarrow> string" where
  "fmt_s p = (case p of None \<Rightarrow> ''(null)'' | Some s \<Rightarrow> s)"

text \<open>The text a list of writes leaves on the stream, and the line breaks in a text.\<close>

definition rendered :: "string list \<Rightarrow> string" where
  "rendered ws = concat ws"

definition line_breaks :: "string \<Rightarrow> nat" where
  "line_breaks s = count_list s (CHR 0x0A)"

subsection \<open>CLI progress callbacks\<close>

text \<open>
  The process-wide state of the progress display: the static \<^verbatim>\<open>cli_current_step\<close>
  and the two callback pointers of the engine, each either null (\<open>False\<close>) or
  pointing to the CLI's callback (\<open>True\<close>).
\<close>

record progress_state =
  cli_current_step :: c_int
  flux_step_callback :: bool
  flux_substep_callback :: bool

datatype flux_substep_type_t =
  FLUX_SUBSTEP_DOUBLE_BLOCK | FLUX_SUBSTEP_SINGLE_BLOCK | FLUX_SUBSTEP_FINAL_LAYER

text \<open>
  Each callback returns the writes it makes to standard error, one string per
  \<^verbatim>\<open>fprintf\<close> or \<^verbatim>\<open>fputc\<close>, and the state it leaves.
\<close>

definition cli_step_callback ::
  "c_int \<Rightarrow> c_int \<Rightarrow> progress_state \<Rightarrow> string list \<times> progress_state" where
  "cli_step_callback step tot st =
     ((if 0 <s cli_current_step st then [nl] else []) @
        [''Step '' @ fmt_d step @ ''/'' @ fmt_d tot @ '' ''],
      st\<lparr>cli_current_step := step\<rparr>)"

text \<open>
  \<^verbatim>\<open>index + 1\<close> is computed in \<^verbatim>\<open>int\<close>; at \<^verbatim>\<open>INT_MAX\<close> the C is undefined and
  the model wraps.
\<close>

definition cli_substep_callback ::
  "flux_substep_type_t \<Rightarrow> c_int \<Rightarrow> c_int \<Rightarrow> string list" where
  "cli_substep_callback kind index tot =
     (case kind of
        FLUX_SUBSTEP_DOUBLE_BLOCK \<Rightarrow> [''d'']
      | FLUX_SUBSTEP_SINGLE_BLOCK \<Rightarrow> (if c_rem (index + 1) 5 = 0 then [''s''] else [])
      | FLUX_SUBSTEP_FINAL_LAYER \<Rightarrow> [''F''])"

definition cli_setup_progress :: "progress_state \<Rightarrow> progress_state" where
  "cli_setup_progress st =
     st\<lparr>cli_current_step := 0, flux_step_callback := True, flux_substep_callback := True\<rparr>"

definition cli_finish_progress :: "progress_state \<Rightarrow> string list \<times> progress_state" where
  "cli_finish_progress st =
     ((if 0 <s cli_current_step st then [nl] else []),
      st\<lparr>cli_current_step := (if 0 <s cli_current_step st then 0 else cli_current_step st),
         flux_step_callback := False, flux_substep_callback := False\<rparr>)"

text \<open>
  Modelled from the spec: the engine side of the callback protocol, which is in
  the engine's sources and not in \<^verbatim>\<open>main.c\<close>. During one generation call the
  engine emits step and substep events synchronously; an event reaches a callback
  only while that callback is registered, and is dropped otherwise. Before
  \<^verbatim>\<open>main\<close> registers anything, both pointers are null.
\<close>

datatype progress_event =
  StepEvent c_int c_int
| SubstepEvent flux_substep_type_t c_int c_int

definition initial_progress :: progress_state where
  "initial_progress =
     \<lparr>cli_current_step = 0, flux_step_callback = False, flux_substep_callback = False\<rparr>"

fun deliver :: "progress_event \<Rightarrow> progress_state \<Rightarrow> string list \<times> progress_state" where
  "deliver (StepEvent step tot) st =
     (if flux_step_callback st then cli_step_callback step tot st else ([], st))"
| "deliver (SubstepEvent kind index tot) st =
     (if flux_substep_callback st then (cli_substep_callback kind index tot, st)
      else ([], st))"

fun deliver_all :: "progress_event list \<Rightarrow> progress_state \<Rightarrow> string list \<times> progress_state" where
  "deliver_all [] st = ([], st)"
| "deliver_all (e # es) st =
     (case deliver e st of (w, st') \<Rightarrow>
        (case deliver_all es st' of (ws, st'') \<Rightarrow> (w @ ws, st'')))"

subsection \<open>Data of the driver\<close>

text \<open>
  The structure \<^verbatim>\<open>flux_params\<close>, with the fields \<^verbatim>\<open>main\<close> initialises, and the
  fields of \<^verbatim>\<open>flux_image\<close> that \<^verbatim>\<open>main\<close> reads.
\<close>

record flux_params =
  width :: c_int
  height :: c_int
  num_steps :: c_int
  guidance_scale :: c_float
  seed :: c_long
  strength :: c_float

record flux_image =
  img_width :: c_int
  img_height :: c_int
  img_channels :: c_int
  img_pixels :: "byte list"

definition DEFAULT_WIDTH :: c_int where "DEFAULT_WIDTH = 256"
definition DEFAULT_HEIGHT :: c_int where "DEFAULT_HEIGHT = 256"
definition DEFAULT_STEPS :: c_int where "DEFAULT_STEPS = 4"
definition DEFAULT_GUIDANCE :: c_float where "DEFAULT_GUIDANCE = Finite 1"
definition DEFAULT_STRENGTH :: c_float where "DEFAULT_STRENGTH = Finite (3 / 4)"

text \<open>
  Modelled from the spec: the macro \<^verbatim>\<open>FLUX_TEXT_DIM\<close> of the header
  \<^verbatim>\<open>flux.h\<close>, the fixed text dimension of the engine; the value is the one the
  comment at its use in \<^verbatim>\<open>main\<close> gives.
\<close>

definition FLUX_TEXT_DIM :: c_int where "FLUX_TEXT_DIM = 7680"

text \<open>
  One option as \<^verbatim>\<open>getopt_long\<close> returns it. A numeric option carries the
  value that \<^verbatim>\<open>main\<close> stores: the result of \<^verbatim>\<open>atoi\<close> or \<^verbatim>\<open>atoll\<close>, or
  the result of \<^verbatim>\<open>atof\<close> after the conversion to \<^verbatim>\<open>float\<close> that the
  assignment makes. \<open>Opt_invalid\<close> is any return value the \<^verbatim>\<open>switch\<close> has
  no case for (an unknown option, a missing argument); it carries the
  diagnostic that \<^verbatim>\<open>getopt_long\<close> has written to standard error before it
  returns, \<^verbatim>\<open>opterr\<close> being left at its default.
\<close>

datatype cli_opt =
  Opt_d string | Opt_p string | Opt_o string
| Opt_W c_int | Opt_H c_int | Opt_s c_int
| Opt_g c_float | Opt_S c_long
| Opt_i string | Opt_t c_float
| Opt_e string | Opt_n string
| Opt_v | Opt_h | Opt_V | Opt_invalid string

text \<open>The local variables of \<^verbatim>\<open>main\<close> that the option loop sets.\<close>

record cli_args =
  model_dir :: "string option"
  prompt :: "string option"
  output_path :: "string option"
  input_path :: "string option"
  embeddings_path :: "string option"
  noise_path :: "string option"
  params :: flux_params
  verbose :: bool
  width_set :: bool
  height_set :: bool

definition initial_args :: cli_args where
  "initial_args =
     \<lparr>model_dir = None, prompt = None, output_path = None, input_path = None,
      embeddings_path = None, noise_path = None,
      params = \<lparr>width = DEFAULT_WIDTH, height = DEFAULT_HEIGHT, num_steps = DEFAULT_STEPS,
                guidance_scale = DEFAULT_GUIDANCE, seed = - 1, strength = DEFAULT_STRENGTH\<rparr>,
      verbose = False, width_set = False, height_set = False\<rparr>"

subsection \<open>Events and the environment\<close>

datatype gen_call =
  Flux_generate "string option" flux_params
| Flux_generate_with_embeddings "byte list" c_int flux_params
| Flux_generate_with_embeddings_and_noise "byte list" c_int "byte list" c_int flux_params
| Flux_img2img "string option" flux_image flux_params

datatype buffer = Text_emb | Noise

datatype event =
  Stderr string
| Stdout string
| Flux_load_dir string
| Flux_free
| Flux_set_seed c_long
| Flux_image_load string
| Flux_image_free flux_image
| Flux_image_save flux_image string
| Fopen string
| Fread string
| Fclose string
| Free buffer
| Generation gen_call

text \<open>
  A file that \<^verbatim>\<open>fopen\<close> can open: the bytes it holds, and how many of them
  \<^verbatim>\<open>fread\<close> delivers before it stops (all of them, unless reading fails).
\<close>

record cfile =
  file_data :: "byte list"
  readable :: nat

text \<open>\<^verbatim>\<open>fseek\<close> to the end and \<^verbatim>\<open>ftell\<close>: the size of the file, as a \<^verbatim>\<open>long\<close>.\<close>

definition ftell_end :: "cfile \<Rightarrow> c_long" where
  "ftell_end f = of_nat (length (file_data f))"

text \<open>\<^verbatim>\<open>fread(buf, 1, n, f)\<close>: the bytes that arrive in the buffer; their number is the value returned.\<close>

definition fread :: "cfile \<Rightarrow> c_long \<Rightarrow> byte list" where
  "fread f n = take (min (unat n) (readable f)) (file_data f)"

text \<open>
  The answers of the collaborators. The engine's generation entry points are one
  function of the seed set by \<^verbatim>\<open>flux_set_seed\<close> and of the call: the progress
  events the engine emits during the call, and the image it returns (\<open>None\<close>
  for a null result). \<open>fmt_f\<close> is printf's conversion \<^verbatim>\<open>%.Nf\<close>;
  \<open>load_time\<close> and \<open>gen_time\<close> are the two quotients of \<^verbatim>\<open>clock()\<close>
  differences that \<^verbatim>\<open>main\<close> prints.
\<close>

record env =
  flux_load_dir :: "string \<Rightarrow> bool"
  flux_get_error :: string
  flux_model_info :: string
  time_now :: c_long
  flux_image_load :: "string \<Rightarrow> flux_image option"
  fopen_rb :: "string \<Rightarrow> cfile option"
  engine :: "c_long \<Rightarrow> gen_call \<Rightarrow> progress_event list \<times> flux_image option"
  flux_image_save :: "flux_image \<Rightarrow> string \<Rightarrow> bool"
  fmt_f :: "nat \<Rightarrow> c_float \<Rightarrow> string"
  load_time :: c_float
  gen_time :: c_float

text \<open>What one run leaves behind: the events, the exit status and the progress state.\<close>

record outcome =
  events :: "event list"
  exit_status :: int
  progress :: progress_state

subsection \<open>Usage and version\<close>

definition print_usage :: "string \<Rightarrow> event list" where
  \<open>print_usage prog =
     [Stderr ''FLUX.2 klein 4B - Pure C Image Generation\<newline>\<newline>'',
      Stderr (''Usage: '' @ prog @ '' [options]\<newline>\<newline>''),
      Stderr ''Required:\<newline>'',
      Stderr ''  -d, --dir PATH        Path to model directory (safetensors)\<newline>'',
      Stderr ''  -p, --prompt TEXT     Text prompt for generation\<newline>'',
      Stderr ''  -o, --output PATH     Output image path (.png, .ppm)\<newline>\<newline>'',
      Stderr ''Generation options:\<newline>'',
      Stderr (''  -W, --width N         Output width (default: '' @ fmt_d DEFAULT_WIDTH @ '')\<newline>''),
      Stderr (''  -H, --height N        Output height (default: '' @ fmt_d DEFAULT_HEIGHT @ '')\<newline>''),
      Stderr (''  -s, --steps N         Sampling steps (default: '' @ fmt_d DEFAULT_STEPS @ '')\<newline>''),
      Stderr ''  -g, --guidance N      Guidance scale (default: 1.0)\<newline>'',
      Stderr ''  -S, --seed N          Random seed (-1 for random)\<newline>\<newline>'',
      Stderr ''Image-to-image options:\<newline>'',
      Stderr ''  -i, --input PATH      Input image for img2img\<newline>'',
      Stderr ''  -t, --strength N      Strength 0.0-1.0 (default: 0.75)\<newline>\<newline>'',
      Stderr ''Other options:\<newline>'',
      Stderr ''  -e, --embeddings PATH Load text embeddings from binary file\<newline>'',
      Stderr ''  -v, --verbose         Enable verbose output\<newline>'',
      Stderr ''  -h, --help            Show this help\<newline>\<newline>'',
      Stderr ''Examples:\<newline>'',
      Stderr (''  '' @ prog @ '' -d model/ -p "a cat on a rainbow" -o cat.png\<newline>''),
      Stderr (''  '' @ prog @ '' -d model/ -p "oil painting style" -i photo.png -o art.png -t 0.7\<newline>'')]\<close>

definition print_version :: "event list" where
  "print_version =
     [Stderr ''FLUX.2 klein 4B Inference Engine\<newline>'',
      Stderr ''Version: 1.0.0\<newline>'',
      Stderr ''Pure C implementation, no external dependencies\<newline>'']"

subsection \<open>The option loop\<close>

text \<open>
  One turn of the \<^verbatim>\<open>while\<close> loop over \<^verbatim>\<open>getopt_long\<close>: the \<^verbatim>\<open>switch\<close>.
  \<open>Inl\<close> is a \<^verbatim>\<open>return\<close> from \<^verbatim>\<open>main\<close>, with what was printed and the status.
\<close>

fun apply_opt :: "string \<Rightarrow> cli_opt \<Rightarrow> cli_args \<Rightarrow> (event list \<times> int) + cli_args" where
  "apply_opt prog (Opt_d s) a = Inr (a\<lparr>model_dir := Some s\<rparr>)"
| "apply_opt prog (Opt_p s) a = Inr (a\<lparr>prompt := Some s\<rparr>)"
| "apply_opt prog (Opt_o s) a = Inr (a\<lparr>output_path := Some s\<rparr>)"
| "apply_opt prog (Opt_W n) a = Inr (a\<lparr>params := (params a)\<lparr>width := n\<rparr>, width_set := True\<rparr>)"
| "apply_opt prog (Opt_H n) a = Inr (a\<lparr>params := (params a)\<lparr>height := n\<rparr>, height_set := True\<rparr>)"
| "apply_opt prog (Opt_s n) a = Inr (a\<lparr>params := (params a)\<lparr>num_steps := n\<rparr>\<rparr>)"
| "apply_opt prog (Opt_g x) a = Inr (a\<lparr>params := (params a)\<lparr>guidance_scale := x\<rparr>\<rparr>)"
| "apply_opt prog (Opt_S n) a = Inr (a\<lparr>params := (params a)\<lparr>seed := n\<rparr>\<rparr>)"
| "apply_opt prog (Opt_i s) a = Inr (a\<lparr>input_path := Some s\<rparr>)"
| "apply_opt prog (Opt_t x) a = Inr (a\<lparr>params := (params a)\<lparr>strength := x\<rparr>\<rparr>)"
| "apply_opt prog (Opt_e s) a = Inr (a\<lparr>embeddings_path := Some s\<rparr>)"
| "apply_opt prog (Opt_n s) a = Inr (a\<lparr>noise_path := Some s\<rparr>)"
| "apply_opt prog Opt_v a = Inr (a\<lparr>verbose := True\<rparr>)"
| "apply_opt prog Opt_h a = Inl (print_usage prog, 0)"
| "apply_opt prog Opt_V a = Inl (print_version, 0)"
| "apply_opt prog (Opt_invalid diag) a = Inl (Stderr diag # print_usage prog, 1)"

fun parse_options :: "string \<Rightarrow> cli_opt list \<Rightarrow> cli_args \<Rightarrow> (event list \<times> int) + cli_args" where
  "parse_options prog [] a = Inr a"
| "parse_options prog (opt # opts) a =
     (case apply_opt prog opt a of
        Inl r \<Rightarrow> Inl r
      | Inr a' \<Rightarrow> parse_options prog opts a')"

subsection \<open>Validation of the arguments\<close>

text \<open>
  The checks of \<^verbatim>\<open>main\<close> between the option loop and the loading of the model,
  in their order. \<open>Inl\<close> is what is printed before \<^verbatim>\<open>return 1\<close>; \<open>Inr\<close> carries
  the model directory and the output path, both known to be present from there on.
\<close>

definition validate :: "string \<Rightarrow> cli_args \<Rightarrow> event list + (string \<times> string)" where
  "validate prog a =
     (case model_dir a of
        None \<Rightarrow> Inl (Stderr ''Error: Model directory (-d) is required\<newline>\<newline>'' # print_usage prog)
      | Some mdir \<Rightarrow>
     if prompt a = None \<and> embeddings_path a = None then
       Inl (Stderr ''Error: Prompt (-p) or embeddings file (-e) is required\<newline>\<newline>'' # print_usage prog)
     else
     (case output_path a of
        None \<Rightarrow> Inl (Stderr ''Error: Output path is required (-o)\<newline>\<newline>'' # print_usage prog)
      | Some opath \<Rightarrow>
     if width (params a) <s 64 \<or> 4096 <s width (params a) then
       Inl [Stderr ''Error: Width must be between 64 and 4096\<newline>'']
     else if height (params a) <s 64 \<or> 4096 <s height (params a) then
       Inl [Stderr ''Error: Height must be between 64 and 4096\<newline>'']
     else if num_steps (params a) <s 1 \<or> 100 <s num_steps (params a) then
       Inl [Stderr ''Error: Steps must be between 1 and 100\<newline>'']
     else if flt_less (strength (params a)) (Finite 0) \<or> flt_less (Finite 1) (strength (params a)) then
       Inl [Stderr ''Error: Strength must be between 0.0 and 1.0\<newline>'']
     else Inr (mdir, opath)))"

subsection \<open>The pipeline\<close>

definition when_verbose :: "cli_args \<Rightarrow> event list \<Rightarrow> event list" where
  "when_verbose a es = (if verbose a then es else [])"

text \<open>The header printed in verbose mode, up to \<^verbatim>\<open>Loading model...\<close>.\<close>

definition banner :: "env \<Rightarrow> cli_args \<Rightarrow> string \<Rightarrow> string \<Rightarrow> event list" where
  "banner env a mdir opath =
     when_verbose a
       ([Stderr ''FLUX.2 klein 4B Image Generator\<newline>'',
         Stderr ''================================\<newline>'',
         Stderr (''Model: '' @ mdir @ nl),
         Stderr (''Prompt: '' @ fmt_s (prompt a) @ nl),
         Stderr (''Output: '' @ opath @ nl),
         Stderr (''Size: '' @ fmt_d (width (params a)) @ ''x'' @ fmt_d (height (params a)) @ nl),
         Stderr (''Steps: '' @ fmt_d (num_steps (params a)) @ nl),
         Stderr (''Guidance: '' @ fmt_f env 2 (guidance_scale (params a)) @ nl)] @
        (case input_path a of
           None \<Rightarrow> []
         | Some ipath \<Rightarrow>
             [Stderr (''Input: '' @ ipath @ nl),
              Stderr (''Strength: '' @ fmt_f env 2 (strength (params a)) @ nl)]) @
        [Stderr nl, Stderr ''Loading model...\<newline>''])"

text \<open>The seed that is used: the requested one, or the clock.\<close>

definition actual_seed :: "env \<Rightarrow> cli_args \<Rightarrow> c_long" where
  "actual_seed env a = (if 0 \<le>s seed (params a) then seed (params a) else time_now env)"

text \<open>
  One call of a generation entry point of the engine: the call, then what the
  callbacks write while it runs; the image returned and the progress state left.
\<close>

definition engine_call ::
  "env \<Rightarrow> c_long \<Rightarrow> gen_call \<Rightarrow> progress_state \<Rightarrow> event list \<times> flux_image option \<times> progress_state" where
  "engine_call env sd call st =
     (case engine env sd call of (pes, out) \<Rightarrow>
        (case deliver_all pes st of (ws, st') \<Rightarrow>
           (Generation call # map Stderr ws, out, st')))"

text \<open>
  A branch of the generation stage ends in \<open>Inl\<close>, a \<^verbatim>\<open>return 1\<close> after the
  events given, or in \<open>Inr\<close>, with the events, the value of \<^verbatim>\<open>output\<close> and
  the progress state.
\<close>

type_synonym branch = "event list + (event list \<times> flux_image option \<times> progress_state)"

text \<open>Image-to-image mode.\<close>

definition run_img2img :: "env \<Rightarrow> cli_args \<Rightarrow> c_long \<Rightarrow> progress_state \<Rightarrow> string \<Rightarrow> branch" where
  "run_img2img env a sd st ipath =
     (let pre = when_verbose a [Stderr ''Loading input image...\<newline>''] @ [Flux_image_load ipath] in
      case flux_image_load env ipath of
        None \<Rightarrow>
          Inl (pre @ [Stderr (''Error: Failed to load input image: '' @ ipath @ nl), Flux_free])
      | Some input \<Rightarrow>
          (let p1 = (if width_set a then params a else (params a)\<lparr>width := img_width input\<rparr>);
               p2 = (if height_set a then p1 else p1\<lparr>height := img_height input\<rparr>);
               info = when_verbose a
                 [Stderr (''Input: '' @ fmt_d (img_width input) @ ''x'' @ fmt_d (img_height input) @
                            '', '' @ fmt_d (img_channels input) @ '' channels\<newline>''),
                  Stderr (''Output: '' @ fmt_d (width p2) @ ''x'' @ fmt_d (height p2) @ nl),
                  Stderr ''Generating...\<newline>'']
           in case engine_call env sd (Flux_img2img (prompt a) input p2) st of
                (evs, out, st') \<Rightarrow> Inr (pre @ info @ evs @ [Flux_image_free input], out, st')))"

text \<open>
  The sequence length and the noise count, inferred from the file sizes. The
  division is the unsigned one of \<^verbatim>\<open>size_t\<close>; the quotient is stored in an
  \<^verbatim>\<open>int\<close>.
\<close>

definition text_seq_of :: "c_long \<Rightarrow> c_int" where
  "text_seq_of file_size = (let text_dim = FLUX_TEXT_DIM in ucast (file_size div (scast text_dim * 4)))"

definition noise_size_of :: "c_long \<Rightarrow> c_int" where
  "noise_size_of noise_file_size = ucast (noise_file_size div 4)"

definition size_in :: "c_long \<Rightarrow> real \<Rightarrow> c_float" where
  "size_in sz unit = Finite (real_of_int (sint sz) / unit)"

text \<open>
  Loading the noise file, when a path was given. \<^verbatim>\<open>malloc\<close> is taken to return
  a pointer that is not null, also for a size of 0, so that \<^verbatim>\<open>noise\<close> is not
  null exactly when the file was loaded.
\<close>

definition load_noise :: "env \<Rightarrow> cli_args \<Rightarrow> event list + (event list \<times> (byte list \<times> c_int) option)" where
  "load_noise env a =
     (case noise_path a of
        None \<Rightarrow> Inr ([], None)
      | Some npath \<Rightarrow>
          (let pre = when_verbose a [Stderr (''Loading noise from '' @ npath @ ''...\<newline>'')] @ [Fopen npath] in
           case fopen_rb env npath of
             None \<Rightarrow>
               Inl (pre @ [Stderr (''Error: Failed to open noise file: '' @ npath @ nl),
                           Free Text_emb, Flux_free])
           | Some noise_file \<Rightarrow>
               (let noise_file_size = ftell_end noise_file;
                    noise_size = noise_size_of noise_file_size;
                    noise = fread noise_file noise_file_size
                in if of_nat (length noise) \<noteq> noise_file_size then
                     Inl (pre @ [Fread npath, Stderr ''Error: Failed to read noise file\<newline>'',
                                 Free Noise, Free Text_emb, Fclose npath, Flux_free])
                   else
                     Inr (pre @ [Fread npath, Fclose npath] @
                          when_verbose a
                            [Stderr (''Noise: '' @ fmt_d noise_size @ '' floats ('' @
                                       fmt_f env 2 (size_in noise_file_size 1024) @ '' KB)\<newline>'')],
                          Some (noise, noise_size)))))"

text \<open>Text-to-image mode with external embeddings.\<close>

definition run_embeddings :: "env \<Rightarrow> cli_args \<Rightarrow> c_long \<Rightarrow> progress_state \<Rightarrow> string \<Rightarrow> branch" where
  "run_embeddings env a sd st epath =
     (let pre = when_verbose a [Stderr (''Loading embeddings from '' @ epath @ ''...\<newline>'')] @ [Fopen epath] in
      case fopen_rb env epath of
        None \<Rightarrow>
          Inl (pre @ [Stderr (''Error: Failed to open embeddings file: '' @ epath @ nl), Flux_free])
      | Some emb_file \<Rightarrow>
          (let file_size = ftell_end emb_file;
               text_seq = text_seq_of file_size;
               info = when_verbose a
                 [Stderr (''Embeddings: '' @ fmt_d text_seq @ '' tokens x '' @ fmt_d FLUX_TEXT_DIM @
                            '' dims ('' @ fmt_f env 2 (size_in file_size (1024 * 1024)) @ '' MB)\<newline>'')];
               text_emb = fread emb_file file_size
           in if of_nat (length text_emb) \<noteq> file_size then
                Inl (pre @ info @ [Fread epath, Stderr ''Error: Failed to read embeddings file\<newline>'',
                                   Free Text_emb, Fclose epath, Flux_free])
              else
                (case load_noise env a of
                   Inl errs \<Rightarrow> Inl (pre @ info @ [Fread epath, Fclose epath] @ errs)
                 | Inr (nevs, None) \<Rightarrow>
                     (case engine_call env sd
                             (Flux_generate_with_embeddings text_emb text_seq (params a)) st of
                        (evs, out, st') \<Rightarrow>
                          Inr (pre @ info @ [Fread epath, Fclose epath] @ nevs @
                               when_verbose a [Stderr ''Generating with external embeddings...\<newline>''] @
                               evs @ [Free Text_emb], out, st'))
                 | Inr (nevs, Some (noise, noise_size)) \<Rightarrow>
                     (case engine_call env sd
                             (Flux_generate_with_embeddings_and_noise text_emb text_seq
                                noise noise_size (params a)) st of
                        (evs, out, st') \<Rightarrow>
                          Inr (pre @ info @ [Fread epath, Fclose epath] @ nevs @
                               when_verbose a [Stderr ''Generating with external embeddings and noise...\<newline>''] @
                               evs @ [Free Noise, Free Text_emb], out, st')))))"

text \<open>Text-to-image mode with the internal text encoder.\<close>

definition run_prompt :: "env \<Rightarrow> cli_args \<Rightarrow> c_long \<Rightarrow> progress_state \<Rightarrow> branch" where
  "run_prompt env a sd st =
     (case engine_call env sd (Flux_generate (prompt a) (params a)) st of
        (evs, out, st') \<Rightarrow> Inr (when_verbose a [Stderr ''Generating...\<newline>''] @ evs, out, st'))"

text \<open>The choice of the mode: the \<^verbatim>\<open>if\<close> / \<^verbatim>\<open>else if\<close> / \<^verbatim>\<open>else\<close> of \<^verbatim>\<open>main\<close>.\<close>

definition generate :: "env \<Rightarrow> cli_args \<Rightarrow> c_long \<Rightarrow> progress_state \<Rightarrow> branch" where
  "generate env a sd st =
     (case input_path a of
        Some ipath \<Rightarrow> run_img2img env a sd st ipath
      | None \<Rightarrow>
          (case embeddings_path a of
             Some epath \<Rightarrow> run_embeddings env a sd st epath
           | None \<Rightarrow> run_prompt env a sd st))"

text \<open>After the generation call: the end of the progress display, the check of \<^verbatim>\<open>output\<close>, the saving.\<close>

definition finish ::
  "env \<Rightarrow> cli_args \<Rightarrow> string \<Rightarrow> event list \<Rightarrow> flux_image option \<Rightarrow> progress_state \<Rightarrow> outcome" where
  "finish env a opath evs out st =
     (case (if verbose a then cli_finish_progress st else ([], st)) of (fw, st1) \<Rightarrow>
     (case out of
        None \<Rightarrow>
          \<lparr>events = evs @ map Stderr fw @
                     [Stderr (''Error: Generation failed: '' @ flux_get_error env @ nl), Flux_free],
           exit_status = 1, progress = st1\<rparr>
      | Some output \<Rightarrow>
          (let info = when_verbose a
                 [Stderr (''Generated in '' @ fmt_f env 2 (gen_time env) @ '' seconds\<newline>''),
                  Stderr (''Output: '' @ fmt_d (img_width output) @ ''x'' @ fmt_d (img_height output) @
                            '', '' @ fmt_d (img_channels output) @ '' channels\<newline>''),
                  Stderr (''Saving to '' @ opath @ ''...\<newline>'')]
           in if \<not> flux_image_save env output opath then
                \<lparr>events = evs @ map Stderr fw @ info @
                           [Flux_image_save output opath,
                            Stderr (''Error: Failed to save image: '' @ opath @ nl),
                            Flux_image_free output, Flux_free],
                 exit_status = 1, progress = st1\<rparr>
              else
                \<lparr>events = evs @ map Stderr fw @ info @
                           [Flux_image_save output opath,
                            (if verbose a then Stderr ''Done!\<newline>'' else Stdout (opath @ nl)),
                            Flux_image_free output, Flux_free],
                 exit_status = 0, progress = st1\<rparr>)))"

text \<open>\<^verbatim>\<open>main\<close> from the validation on, for the variables the option loop has set.\<close>

definition run :: "env \<Rightarrow> string \<Rightarrow> cli_args \<Rightarrow> outcome" where
  "run env prog a =
     (case validate prog a of
        Inl errs \<Rightarrow> \<lparr>events = errs, exit_status = 1, progress = initial_progress\<rparr>
      | Inr (mdir, opath) \<Rightarrow>
          (let ev1 = banner env a mdir opath @ [Flux_load_dir mdir] in
           if \<not> flux_load_dir env mdir then
             \<lparr>events = ev1 @ [Stderr (''Error: Failed to load model: '' @ flux_get_error env @ nl)],
              exit_status = 1, progress = initial_progress\<rparr>
           else
             (let ev2 = when_verbose a
                    [Stderr (''Model loaded in '' @ fmt_f env 2 (load_time env) @ '' seconds\<newline>''),
                     Stderr (''Model info: '' @ flux_model_info env @ ''\<newline>\<newline>'')];
                  st = (if verbose a then cli_setup_progress initial_progress else initial_progress);
                  sd = actual_seed env a;
                  ev3 = [Flux_set_seed sd, Stderr (''Seed: '' @ fmt_lld sd @ nl)]
              in case generate env a sd st of
                   Inl errs \<Rightarrow>
                     \<lparr>events = ev1 @ ev2 @ ev3 @ errs, exit_status = 1, progress = st\<rparr>
                 | Inr (gevs, out, st') \<Rightarrow>
                     finish env a opath (ev1 @ ev2 @ ev3 @ gevs) out st')))"

text \<open>\<^verbatim>\<open>main\<close>: the option loop, then the rest.\<close>

definition main :: "env \<Rightarrow> string \<Rightarrow> cli_opt list \<Rightarrow> outcome" where
  "main env prog opts =
     (case parse_options prog opts initial_args of
        Inl (evs, status) \<Rightarrow> \<lparr>events = evs, exit_status = status, progress = initial_progress\<rparr>
      | Inr a \<Rightarrow> run env prog a)"

subsection \<open>Notions used in the statements\<close>

text \<open>A line of the progress display is open when the current step is positive.\<close>

definition line_open :: "progress_state \<Rightarrow> bool" where
  "line_open st = (0 < sint (cli_current_step st))"

text \<open>
  The calls of generation entry points among the events of a run, the seeds
  passed to \<^verbatim>\<open>flux_set_seed\<close>, and the events that are writes to standard error.
\<close>

fun gen_calls :: "event list \<Rightarrow> gen_call list" where
  "gen_calls [] = []"
| "gen_calls (Generation c # es) = c # gen_calls es"
| "gen_calls (e # es) = gen_calls es"

fun seeds_set :: "event list \<Rightarrow> c_long list" where
  "seeds_set [] = []"
| "seeds_set (Flux_set_seed s # es) = s # seeds_set es"
| "seeds_set (e # es) = seeds_set es"

fun is_stderr :: "event \<Rightarrow> bool" where
  "is_stderr (Stderr s) = True"
| "is_stderr e = False"

text \<open>The four generation entry points of the engine, and the one a call goes to.\<close>

datatype entry_point =
  EP_generate | EP_generate_with_embeddings | EP_generate_with_embeddings_and_noise | EP_img2img

fun entry_point_of :: "gen_call \<Rightarrow> entry_point" where
  "entry_point_of (Flux_generate p ps) = EP_generate"
| "entry_point_of (Flux_generate_with_embeddings e n ps) = EP_generate_with_embeddings"
| "entry_point_of (Flux_generate_with_embeddings_and_noise e n z m ps) = EP_generate_with_embeddings_and_noise"
| "entry_point_of (Flux_img2img p i ps) = EP_img2img"

text \<open>The sequence length that a call with embeddings passes to the engine.\<close>

fun call_text_seq :: "gen_call \<Rightarrow> c_int option" where
  "call_text_seq (Flux_generate_with_embeddings e n ps) = Some n"
| "call_text_seq (Flux_generate_with_embeddings_and_noise e n z m ps) = Some n"
| "call_text_seq c = None"

text \<open>A file loads when it can be opened and \<^verbatim>\<open>fread\<close> returns as many bytes as its size.\<close>

definition file_loads :: "env \<Rightarrow> string \<Rightarrow> bool" where
  "file_loads env path =
     (case fopen_rb env path of
        None \<Rightarrow> False
      | Some f \<Rightarrow> of_nat (length (fread f (ftell_end f))) = ftell_end f)"

text \<open>
  The selection policy in the words of the specification, by priority: an input
  image path selects image-to-image; otherwise an embeddings path selects the
  external embeddings, with noise exactly when a noise path is present;
  otherwise the prompt alone. The result is the entry point to call, or \<open>None\<close>
  when an input of the selected mode does not load.
\<close>

definition selected_entry :: "env \<Rightarrow> cli_args \<Rightarrow> entry_point option" where
  "selected_entry env a =
     (case input_path a of
        Some ipath \<Rightarrow> (if flux_image_load env ipath = None then None else Some EP_img2img)
      | None \<Rightarrow>
          (case embeddings_path a of
             Some epath \<Rightarrow>
               (case noise_path a of
                  None \<Rightarrow>
                    (if file_loads env epath then Some EP_generate_with_embeddings else None)
                | Some npath \<Rightarrow>
                    (if file_loads env epath \<and> file_loads env npath
                     then Some EP_generate_with_embeddings_and_noise else None))
           | None \<Rightarrow> Some EP_generate))"

text \<open>
  The two events that set and report the seed, and the events that precede them
  in a run that has loaded the model.
\<close>

definition seed_report :: "c_long \<Rightarrow> event list" where
  "seed_report sd = [Flux_set_seed sd, Stderr (''Seed: '' @ fmt_lld sd @ nl)]"

definition before_seed :: "env \<Rightarrow> cli_args \<Rightarrow> string \<Rightarrow> string \<Rightarrow> event list" where
  "before_seed env a mdir opath =
     banner env a mdir opath @ [Flux_load_dir mdir] @
     when_verbose a
       [Stderr (''Model loaded in '' @ fmt_f env 2 (load_time env) @ '' seconds\<newline>''),
        Stderr (''Model info: '' @ flux_model_info env @ ''\<newline>\<newline>'')]"

text \<open>
  The width and the height the caller asked for: the argument of the last
  \<^verbatim>\<open>-W\<close> (\<^verbatim>\<open>-H\<close>) option, or \<open>None\<close> when there is none.
\<close>

fun requested_width :: "cli_opt list \<Rightarrow> c_int option" where
  "requested_width [] = None"
| "requested_width (Opt_W n # opts) =
     (case requested_width opts of None \<Rightarrow> Some n | Some m \<Rightarrow> Some m)"
| "requested_width (opt # opts) = requested_width opts"

fun requested_height :: "cli_opt list \<Rightarrow> c_int option" where
  "requested_height [] = None"
| "requested_height (Opt_H n # opts) =
     (case requested_height opts of None \<Rightarrow> Some n | Some m \<Rightarrow> Some m)"
| "requested_height (opt # opts) = requested_height opts"

text \<open>
  The output option, and the status with which the option loop returns from
  \<^verbatim>\<open>main\<close>, if it does: 0 at the first \<^verbatim>\<open>-h\<close> or \<^verbatim>\<open>-V\<close>, 1 at the first
  invalid option, whichever comes first.
\<close>

fun is_output_opt :: "cli_opt \<Rightarrow> bool" where
  "is_output_opt (Opt_o s) = True"
| "is_output_opt opt = False"

fun loop_exit :: "cli_opt list \<Rightarrow> int option" where
  "loop_exit [] = None"
| "loop_exit (Opt_h # opts) = Some 0"
| "loop_exit (Opt_V # opts) = Some 0"
| "loop_exit (Opt_invalid diag # opts) = Some 1"
| "loop_exit (opt # opts) = loop_exit opts"

text \<open>The noise and embeddings options, and an invocation with its noise options removed.\<close>

fun is_noise_opt :: "cli_opt \<Rightarrow> bool" where
  "is_noise_opt (Opt_n s) = True"
| "is_noise_opt opt = False"

fun is_embeddings_opt :: "cli_opt \<Rightarrow> bool" where
  "is_embeddings_opt (Opt_e s) = True"
| "is_embeddings_opt opt = False"

definition without_noise :: "cli_opt list \<Rightarrow> cli_opt list" where
  "without_noise opts = filter (\<lambda>opt. \<not> is_noise_opt opt) opts"

fun is_fopen :: "event \<Rightarrow> bool" where
  "is_fopen (Fopen p) = True"
| "is_fopen e = False"

text \<open>
  An event is quiet when it is neither an error report (a line on standard error
  that starts with \<^verbatim>\<open>Error: \<close>), nor a write to standard output, nor the
  release of the model context, nor the saving of an image.
\<close>

fun quiet :: "event \<Rightarrow> bool" where
  "quiet (Stderr s) = (take 7 s \<noteq> ''Error: '')"
| "quiet (Stdout s) = False"
| "quiet Flux_free = False"
| "quiet (Flux_image_save i p) = False"
| "quiet e = True"

text \<open>
  The progress state in which a generation call leaves a display that was set
  up before it, and the report of a failed generation.
\<close>

definition progress_after :: "env \<Rightarrow> c_long \<Rightarrow> gen_call \<Rightarrow> progress_state" where
  "progress_after env sd c =
     snd (deliver_all (fst (engine env sd c)) (cli_setup_progress initial_progress))"

definition failure_report :: "env \<Rightarrow> event" where
  "failure_report env = Stderr (''Error: Generation failed: '' @ flux_get_error env @ nl)"

subsection \<open>Concrete inputs\<close>

text \<open>
  An environment in which the model directory \<^verbatim>\<open>model\<close> loads, the image
  \<^verbatim>\<open>photo.png\<close> and the files \<^verbatim>\<open>emb.bin\<close> (two tokens) and \<^verbatim>\<open>noise.bin\<close>
  exist, and the engine runs two steps and returns an image; the invocation
  \<^verbatim>\<open>-d model -p "a cat" -o out.png\<close>; an environment whose engine fails; and
  an embeddings file of \<open>7680 * 4 * 2 ^ 31\<close> bytes.
\<close>

definition demo_image :: flux_image where
  "demo_image = \<lparr>img_width = 512, img_height = 384, img_channels = 3, img_pixels = []\<rparr>"

definition demo_env :: env where
  "demo_env =
     \<lparr>flux_load_dir = (\<lambda>d. d = ''model''),
      flux_get_error = ''out of memory'',
      flux_model_info = ''FLUX.2 klein 4B'',
      time_now = 1700000000,
      flux_image_load = (\<lambda>p. if p = ''photo.png'' then Some demo_image else None),
      fopen_rb = (\<lambda>p. if p = ''emb.bin'' then Some \<lparr>file_data = replicate 61440 0, readable = 61440\<rparr>
                      else if p = ''noise.bin'' then Some \<lparr>file_data = replicate 16 0, readable = 16\<rparr>
                      else None),
      engine = (\<lambda>sd c. ([StepEvent 1 2, SubstepEvent FLUX_SUBSTEP_DOUBLE_BLOCK 0 5,
                          StepEvent 2 2, SubstepEvent FLUX_SUBSTEP_FINAL_LAYER 0 1], Some demo_image)),
      flux_image_save = (\<lambda>img p. True),
      fmt_f = (\<lambda>n x. ''0.00''),
      load_time = Finite 0,
      gen_time = Finite 0\<rparr>"

definition demo_args :: cli_args where
  "demo_args = initial_args\<lparr>model_dir := Some ''model'', prompt := Some ''a cat'',
                            output_path := Some ''out.png''\<rparr>"

definition failing_env :: env where
  "failing_env =
     demo_env\<lparr>engine := (\<lambda>sd c. ([StepEvent 1 2, SubstepEvent FLUX_SUBSTEP_DOUBLE_BLOCK 0 5,
                                     StepEvent 2 2], None))\<rparr>"

definition huge_file :: cfile where
  "huge_file = \<lparr>file_data = replicate 65970697666560 0, readable = 65970697666560\<rparr>"

section \<open>The progress display\<close>

lemma smod5_zero: "(k smod 5 = 0) = ((k::int) mod 5 = 0)"
  by (auto simp: signed_modulo_int_def sgn_if abs_if split: if_splits; presburger)

lemma c_rem_5_zero: "(c_rem x 5 = 0) = (sint x mod 5 = 0)"
proof -
  have b: "\<bar>sint x smod 5\<bar> < 5"
    by (simp add: signed_modulo_int_def abs_mult sgn_if)
  have "(word_of_int (sint x smod 5) :: c_int) = 0 \<longleftrightarrow> sint x smod 5 = 0"
  proof
    assume "(word_of_int (sint x smod 5) :: c_int) = 0"
    then have "(2::int) ^ 32 dvd sint x smod 5"
      by (simp add: word_of_int_eq_0_iff)
    with b show "sint x smod 5 = 0"
      by (auto dest!: zdvd_imp_le simp: dvd_def) 
  qed simp
  then show ?thesis by (simp add: c_rem_def smod5_zero)
qed

lemma sint_succ_mod5: "(sint (i + 1 :: c_int) mod 5 = 0) = ((sint i + 1) mod 5 = 0)"
proof (cases "sint i = 2 ^ 31 - 1")
  case True
  then have "word_of_int (sint i) = (word_of_int (2 ^ 31 - 1) :: c_int)" by simp
  then have "i = 2147483647" by simp
  then show ?thesis by simp
next
  case False
  have "sint i < 2 ^ 31" using sint_lt [of i] by simp
  with False have "sint i + 1 < 2 ^ 31" by simp
  moreover have "- (2 ^ 31) \<le> sint i" using sint_ge [of i] by simp
  ultimately have "sint (i + 1) = sint i + 1"
    by (simp add: sint_word_add signed_take_bit_int_eq_self)
  then show ?thesis by simp
qed

lemma nl_not_digit: "CHR 0x0A \<notin> set (dec_nat n)"
proof (induction n rule: dec_nat.induct)
  case (1 n)
  have d: "\<And>k::nat. k < 10 \<Longrightarrow> ''0123456789'' ! k \<noteq> CHR 0x0A"
  proof -
    fix k :: nat assume "k < 10"
    then have "k \<in> {0,1,2,3,4,5,6,7,8,9}" by auto
    then show "''0123456789'' ! k \<noteq> CHR 0x0A" by auto
  qed
  show ?case
  proof (cases "n < 10")
    case True
    then show ?thesis by (subst dec_nat.simps) (simp add: d d [symmetric])
  next
    case False
    then show ?thesis using 1 by (subst dec_nat.simps) (simp add: d d [symmetric])
  qed
qed

lemma line_breaks_fmt_d: "line_breaks (fmt_d v) = 0"
  by (simp add: line_breaks_def fmt_d_def dec_int_def nl_not_digit count_list_0_iff)

lemma line_breaks_append: "line_breaks (xs @ ys) = line_breaks xs + line_breaks ys"
  by (induction xs) (simp_all add: line_breaks_def)

lemma line_breaks_step_line:
  "line_breaks (''Step '' @ fmt_d step @ ''/'' @ fmt_d tot @ '' '') = 0"
proof -
  have "line_breaks ''Step '' = 0" and "line_breaks ''/'' = 0" and "line_breaks '' '' = 0"
    by (simp_all add: line_breaks_def)
  then show ?thesis
    by (simp only: line_breaks_append line_breaks_fmt_d)
qed

lemma rendered_one: "rendered [a] = a" and rendered_two: "rendered [a, b] = a @ b"
  by (simp_all add: rendered_def)

section \<open>The selection of the mode\<close>

lemma gen_calls_append [simp]: "gen_calls (xs @ ys) = gen_calls xs @ gen_calls ys"
  by (induction xs rule: gen_calls.induct) simp_all

lemma gen_calls_stderr [simp]: "gen_calls (map Stderr ws) = []"
  by (induction ws) simp_all

lemma gen_calls_when_verbose [simp]:
  "gen_calls (when_verbose a es) = (if verbose a then gen_calls es else [])"
  by (simp add: when_verbose_def)

lemma gen_calls_print_usage [simp]: "gen_calls (print_usage prog) = []"
  by (simp add: print_usage_def)

lemma gen_calls_banner [simp]: "gen_calls (banner env a mdir opath) = []"
  by (simp add: banner_def split: option.splits)

lemma gen_calls_engine_call:
  "engine_call env sd c st = (evs, out, st') \<Longrightarrow> gen_calls evs = [c]"
  by (auto simp: engine_call_def split: prod.splits)

lemma gen_calls_load_noise_Inl: "load_noise env a = Inl errs \<Longrightarrow> gen_calls errs = []"
  by (auto simp: load_noise_def Let_def split: option.splits if_splits)

lemma gen_calls_load_noise_Inr: "load_noise env a = Inr (nevs, nz) \<Longrightarrow> gen_calls nevs = []"
  by (auto simp: load_noise_def Let_def split: option.splits if_splits)

lemma load_noise_result:
  "load_noise env a = Inr (nevs, nz) \<Longrightarrow>
     (nz = None) = (noise_path a = None) \<and> (\<forall>np. noise_path a = Some np \<longrightarrow> file_loads env np)"
  by (auto simp: load_noise_def file_loads_def Let_def split: option.splits if_splits)

lemma load_noise_fail:
  "load_noise env a = Inl errs \<Longrightarrow> \<exists>np. noise_path a = Some np \<and> \<not> file_loads env np"
  by (auto simp: load_noise_def file_loads_def Let_def split: option.splits if_splits)

lemma generate_Inl_calls: "generate env a sd st = Inl errs \<Longrightarrow> gen_calls errs = [] \<and> selected_entry env a = None"
  apply (auto simp: generate_def run_img2img_def run_embeddings_def run_prompt_def selected_entry_def
      file_loads_def Let_def
      split: option.splits if_splits prod.splits sum.splits dest: gen_calls_load_noise_Inl load_noise_fail)
  done

lemma run_prompt_calls:
  "run_prompt env a sd st = Inr (gevs, out, st') \<Longrightarrow>
     gen_calls gevs = [Flux_generate (prompt a) (params a)]"
  by (auto simp: run_prompt_def split: prod.splits dest!: gen_calls_engine_call)

lemma run_img2img_calls:
  "run_img2img env a sd st ipath = Inr (gevs, out, st') \<Longrightarrow>
     \<exists>input. flux_image_load env ipath = Some input \<and>
       gen_calls gevs =
         [Flux_img2img (prompt a) input
            ((params a)\<lparr>width := (if width_set a then width (params a) else img_width input),
                        height := (if height_set a then height (params a) else img_height input)\<rparr>)]"
  by (auto simp: run_img2img_def Let_def split: option.splits prod.splits
      dest!: gen_calls_engine_call)

lemma load_noise_Inr_cases:
  assumes "load_noise env a = Inr (nevs, nz)"
  shows "gen_calls nevs = [] \<and>
     (case noise_path a of
        None \<Rightarrow> nz = None
      | Some npath \<Rightarrow>
          file_loads env npath \<and>
          (\<exists>g. fopen_rb env npath = Some g \<and>
             nz = Some (fread g (ftell_end g), noise_size_of (ftell_end g))))"
  using assms
  by (auto simp: load_noise_def file_loads_def Let_def split: option.splits if_splits)

lemma run_embeddings_calls:
  assumes "run_embeddings env a sd st epath = Inr (gevs, out, st')"
  shows "\<exists>f. fopen_rb env epath = Some f \<and> file_loads env epath \<and>
     (case noise_path a of
        None \<Rightarrow>
          gen_calls gevs =
            [Flux_generate_with_embeddings (fread f (ftell_end f)) (text_seq_of (ftell_end f)) (params a)]
      | Some npath \<Rightarrow>
          file_loads env npath \<and>
          (\<exists>g. fopen_rb env npath = Some g \<and>
             gen_calls gevs =
               [Flux_generate_with_embeddings_and_noise (fread f (ftell_end f)) (text_seq_of (ftell_end f))
                  (fread g (ftell_end g)) (noise_size_of (ftell_end g)) (params a)]))"
proof -
  from assms obtain f where f: "fopen_rb env epath = Some f"
    and ok: "of_nat (length (fread f (ftell_end f))) = ftell_end f"
    by (auto simp: run_embeddings_def Let_def split: option.splits if_splits)
  from assms f ok obtain nevs nz where n: "load_noise env a = Inr (nevs, nz)"
    by (auto simp: run_embeddings_def Let_def split: sum.splits)
  note nc = load_noise_Inr_cases [OF n]
  show ?thesis
  proof (cases "noise_path a")
    case None
    with nc have "nz = None" "gen_calls nevs = []" by simp_all
    with assms f ok n None show ?thesis
      by (auto simp: run_embeddings_def Let_def file_loads_def split: prod.splits
          dest!: gen_calls_engine_call)
  next
    case (Some npath)
    with nc obtain g where g: "fopen_rb env npath = Some g" "file_loads env npath"
      "nz = Some (fread g (ftell_end g), noise_size_of (ftell_end g))" "gen_calls nevs = []"
      by auto
    with assms f ok n Some show ?thesis
      by (auto simp: run_embeddings_def Let_def file_loads_def split: prod.splits
          dest!: gen_calls_engine_call)
  qed
qed

lemma generate_Inr_calls:
  assumes "generate env a sd st = Inr (gevs, out, st')"
  shows "\<exists>c. gen_calls gevs = [c] \<and> selected_entry env a = Some (entry_point_of c)"
proof (cases "input_path a")
  case (Some ipath)
  with assms have "run_img2img env a sd st ipath = Inr (gevs, out, st')"
    by (simp add: generate_def)
  from run_img2img_calls [OF this] Some show ?thesis
    by (auto simp: selected_entry_def)
next
  case None
  show ?thesis
  proof (cases "embeddings_path a")
    case (Some epath)
    with assms None have "run_embeddings env a sd st epath = Inr (gevs, out, st')"
      by (simp add: generate_def)
    from run_embeddings_calls [OF this] None Some show ?thesis
      by (auto simp: selected_entry_def split: option.splits)
  next
    case e: None
    with assms None have "run_prompt env a sd st = Inr (gevs, out, st')"
      by (simp add: generate_def)
    from run_prompt_calls [OF this] None e show ?thesis
      by (simp add: selected_entry_def)
  qed
qed

lemma gen_calls_finish:
  "gen_calls (events (finish env a opath evs out st)) = gen_calls evs"
  by (simp add: finish_def Let_def split: prod.splits option.splits)

lemma run_gen_calls:
  assumes "validate prog a = Inr (mdir, opath)" and "flux_load_dir env mdir"
  shows "map entry_point_of (gen_calls (events (run env prog a))) =
           (case selected_entry env a of None \<Rightarrow> [] | Some e \<Rightarrow> [e])"
proof (cases "generate env a (actual_seed env a)
               (if verbose a then cli_setup_progress initial_progress else initial_progress)")
  case (Inl errs)
  from generate_Inl_calls [OF Inl] assms Inl show ?thesis
    by (simp add: run_def Let_def)
next
  case (Inr r)
  obtain gevs out st' where r: "r = (gevs, out, st')" by (cases r) auto
  from generate_Inr_calls [OF Inr [unfolded r]] obtain c where
    "gen_calls gevs = [c]" "selected_entry env a = Some (entry_point_of c)" by blast
  with assms Inr r show ?thesis
    by (simp add: run_def Let_def gen_calls_finish)
qed

lemma validate_Inl_stderr: "validate prog a = Inl errs \<Longrightarrow> gen_calls errs = []"
  by (auto simp: validate_def split: option.splits if_splits)

lemma run_at_most_one: "length (gen_calls (events (run env prog a))) \<le> 1"
proof (cases "validate prog a")
  case (Inl errs)
  then show ?thesis by (simp add: run_def validate_Inl_stderr)
next
  case (Inr r)
  obtain mdir opath where r: "r = (mdir, opath)" by (cases r) auto
  show ?thesis
  proof (cases "flux_load_dir env mdir")
    case True
    have "length (map entry_point_of (gen_calls (events (run env prog a)))) \<le> 1"
      unfolding run_gen_calls [OF Inr [unfolded r] True] by (simp split: option.splits)
    then show ?thesis by simp
  next
    case False
    with Inr r show ?thesis by (simp add: run_def Let_def)
  qed
qed

lemma parse_options_Inl_calls:
  "parse_options prog opts a = Inl (evs, status) \<Longrightarrow> gen_calls evs = []"
proof (induction opts arbitrary: a)
  case Nil
  then show ?case by simp
next
  case (Cons opt opts)
  then show ?case
    by (cases opt) (auto simp: print_version_def split: sum.splits)
qed

lemma main_at_most_one: "length (gen_calls (events (main env prog opts))) \<le> 1"
proof (cases "parse_options prog opts initial_args")
  case (Inl r)
  then show ?thesis
    by (cases r) (auto simp: main_def dest: parse_options_Inl_calls)
next
  case (Inr a)
  then show ?thesis
    using run_at_most_one [of env prog a] by (simp add: main_def)
qed

lemmas demo_defs = demo_env_def demo_args_def demo_image_def initial_args_def
  DEFAULT_WIDTH_def DEFAULT_HEIGHT_def DEFAULT_STEPS_def DEFAULT_GUIDANCE_def DEFAULT_STRENGTH_def

lemma validate_demo [simp]:
  "validate prog (demo_args\<lparr>input_path := ip, embeddings_path := ep, noise_path := np, verbose := v\<rparr>)
     = Inr (''model'', ''out.png'')"
  by (simp add: validate_def demo_defs word_sless_alt)

section \<open>The seed\<close>

lemma seeds_set_append [simp]: "seeds_set (xs @ ys) = seeds_set xs @ seeds_set ys"
  by (induction xs rule: seeds_set.induct) simp_all

lemma seeds_set_stderr [simp]: "seeds_set (map Stderr ws) = []"
  by (induction ws) simp_all

lemma seeds_set_when_verbose [simp]:
  "seeds_set (when_verbose a es) = (if verbose a then seeds_set es else [])"
  by (simp add: when_verbose_def)

lemma seeds_set_banner [simp]: "seeds_set (banner env a mdir opath) = []"
  by (simp add: banner_def split: option.splits)

lemma seeds_set_engine_call:
  "engine_call env sd c st = (evs, out, st') \<Longrightarrow> seeds_set evs = []"
  by (auto simp: engine_call_def split: prod.splits)

lemma seeds_set_load_noise_Inl: "load_noise env a = Inl errs \<Longrightarrow> seeds_set errs = []"
  by (auto simp: load_noise_def Let_def split: option.splits if_splits)

lemma seeds_set_load_noise_Inr: "load_noise env a = Inr (nevs, nz) \<Longrightarrow> seeds_set nevs = []"
  by (auto simp: load_noise_def Let_def split: option.splits if_splits)

lemma seeds_set_run_embeddings_Inl:
  "run_embeddings env a sd st epath = Inl errs \<Longrightarrow> seeds_set errs = []"
  by (auto simp: run_embeddings_def Let_def
      split: option.splits if_splits sum.splits prod.splits dest!: seeds_set_load_noise_Inl)

lemma seeds_set_run_embeddings_Inr:
  "run_embeddings env a sd st epath = Inr (gevs, out, st') \<Longrightarrow> seeds_set gevs = []"
  by (auto simp: run_embeddings_def Let_def
      split: option.splits if_splits sum.splits prod.splits
      dest!: seeds_set_load_noise_Inr seeds_set_engine_call)

lemma seeds_set_generate_Inl: "generate env a sd st = Inl errs \<Longrightarrow> seeds_set errs = []"
  by (auto simp: generate_def run_img2img_def run_prompt_def Let_def
      split: option.splits prod.splits dest!: seeds_set_run_embeddings_Inl)

lemma seeds_set_generate_Inr: "generate env a sd st = Inr (gevs, out, st') \<Longrightarrow> seeds_set gevs = []"
  by (auto simp: generate_def run_img2img_def run_prompt_def Let_def
      split: option.splits prod.splits
      dest!: seeds_set_run_embeddings_Inr seeds_set_engine_call)

lemma run_loaded_shape:
  assumes "validate prog a = Inr (mdir, opath)" and "flux_load_dir env mdir"
  shows "\<exists>post. events (run env prog a) =
            before_seed env a mdir opath @ seed_report (actual_seed env a) @ post
          \<and> seeds_set post = []"
proof (cases "generate env a (actual_seed env a)
               (if verbose a then cli_setup_progress initial_progress else initial_progress)")
  case (Inl errs)
  with assms seeds_set_generate_Inl [OF Inl] show ?thesis
    by (simp add: run_def Let_def before_seed_def seed_report_def)
next
  case (Inr r)
  obtain gevs out st' where r: "r = (gevs, out, st')" by (cases r) auto
  note g = seeds_set_generate_Inr [OF Inr [unfolded r]]
  let ?pre = "before_seed env a mdir opath @ seed_report (actual_seed env a)"
  have "\<exists>tl. events (finish env a opath (?pre @ gevs) out st') = ?pre @ gevs @ tl \<and> seeds_set tl = []"
    by (simp add: finish_def Let_def split: prod.splits option.splits)
  then obtain tl where "events (finish env a opath (?pre @ gevs) out st') = ?pre @ gevs @ tl"
    "seeds_set tl = []" by blast
  with assms Inr r g show ?thesis
    by (simp add: run_def Let_def before_seed_def seed_report_def)
qed

lemma run_not_loaded_calls:
  assumes "validate prog a = Inr (mdir, opath)" and "\<not> flux_load_dir env mdir"
  shows "gen_calls (events (run env prog a)) = []"
  using assms by (simp add: run_def Let_def)

lemma run_invalid_calls:
  assumes "validate prog a = Inl errs"
  shows "gen_calls (events (run env prog a)) = []"
  using assms by (simp add: run_def validate_Inl_stderr)

lemma gen_calls_empty_iff: "gen_calls es = [] \<longleftrightarrow> (\<forall>c. Generation c \<notin> set es)"
  by (induction es rule: gen_calls.induct) auto

lemma reaches_generation_run:
  assumes "Generation c \<in> set (events (run env prog a))"
  obtains mdir opath where "validate prog a = Inr (mdir, opath)" and "flux_load_dir env mdir"
proof (cases "validate prog a")
  case (Inl errs)
  from run_invalid_calls [OF Inl] assms show ?thesis
    by (simp add: gen_calls_empty_iff)
next
  case (Inr r)
  obtain mdir opath where r: "r = (mdir, opath)" by (cases r) auto
  show ?thesis
  proof (cases "flux_load_dir env mdir")
    case True
    with Inr r that show ?thesis by blast
  next
    case False
    from run_not_loaded_calls [OF Inr [unfolded r] False] assms show ?thesis
      by (simp add: gen_calls_empty_iff)
  qed
qed

lemma reaches_generation_main:
  assumes "Generation c \<in> set (events (main env prog opts))"
  obtains a where "parse_options prog opts initial_args = Inr a"
    and "main env prog opts = run env prog a"
proof (cases "parse_options prog opts initial_args")
  case (Inl r)
  obtain evs status where "r = (evs, status)" by (cases r) auto
  with Inl parse_options_Inl_calls [of prog opts initial_args evs status] assms show ?thesis
    by (simp add: main_def gen_calls_empty_iff)
next
  case (Inr a)
  with that show ?thesis by (simp add: main_def)
qed

lemma gen_calls_before_seed [simp]: "gen_calls (before_seed env a mdir opath) = []"
  by (simp add: before_seed_def)

lemma seeds_set_before_seed [simp]: "seeds_set (before_seed env a mdir opath) = []"
  by (simp add: before_seed_def)

lemmas run_defs = run_def validate_def generate_def run_img2img_def run_embeddings_def
  run_prompt_def load_noise_def finish_def engine_call_def banner_def when_verbose_def
  actual_seed_def initial_progress_def cli_setup_progress_def cli_step_callback_def
  cli_substep_callback_def cli_finish_progress_def Let_def word_sless_alt word_sle_eq

lemma parse_demo:
  "parse_options prog [Opt_d ''model'', Opt_p ''a cat'', Opt_o ''out.png''] initial_args = Inr demo_args"
  by (simp add: demo_args_def)

section \<open>The sequence length of the embeddings\<close>

lemma scast_text_dim: "(scast FLUX_TEXT_DIM :: c_long) * 4 = 30720"
  by (simp add: FLUX_TEXT_DIM_def)

lemma text_seq_of_nat:
  assumes "n < 2 ^ 64"
  shows "text_seq_of (of_nat n) = of_nat (n div 30720)"
proof -
  have "unat ((of_nat n :: c_long) div 30720) = n div 30720"
    using assms by (simp add: unat_div unat_of_nat)
  then have "(ucast ((of_nat n :: c_long) div 30720) :: c_int) = of_nat (n div 30720)"
    by (metis of_nat_unat)
  then show ?thesis
    by (simp add: text_seq_of_def scast_text_dim Let_def)
qed

lemma sint_text_seq:
  assumes "n div 30720 < 2 ^ 31"
  shows "sint (text_seq_of (of_nat n)) = int (n div 30720)"
proof -
  from assms have "n < 2 ^ 64" by simp
  then have "text_seq_of (of_nat n) = of_nat (n div 30720)"
    by (rule text_seq_of_nat)
  moreover have "sint (of_nat (n div 30720) :: c_int) = int (n div 30720)"
  proof -
    have "sint (of_nat (n div 30720) :: c_int) = signed_take_bit 31 (int (n div 30720))"
      by (simp add: signed_of_nat)
    also have "\<dots> = int (n div 30720)"
      using assms by (intro signed_take_bit_int_eq_self) simp_all
    finally show ?thesis .
  qed
  ultimately show ?thesis by simp
qed

lemma run_calls_generate:
  assumes "validate prog a = Inr (mdir, opath)" and "flux_load_dir env mdir"
  shows "gen_calls (events (run env prog a)) =
     (case generate env a (actual_seed env a)
             (if verbose a then cli_setup_progress initial_progress else initial_progress) of
        Inl errs \<Rightarrow> []
      | Inr (gevs, out, st') \<Rightarrow> gen_calls gevs)"
proof (cases "generate env a (actual_seed env a)
               (if verbose a then cli_setup_progress initial_progress else initial_progress)")
  case (Inl errs)
  with assms generate_Inl_calls [OF Inl] show ?thesis
    by (simp add: run_def Let_def)
next
  case (Inr r)
  obtain gevs out st' where "r = (gevs, out, st')" by (cases r) auto
  with assms Inr show ?thesis
    by (simp add: run_def Let_def gen_calls_finish)
qed

lemma file_loads_whole:
  assumes "fopen_rb env path = Some f" and "length (file_data f) \<le> readable f"
    and "length (file_data f) < 2 ^ 64"
  shows "file_loads env path" and "fread f (ftell_end f) = file_data f"
proof -
  have "unat (ftell_end f) = length (file_data f)"
    using assms(3) by (simp add: ftell_end_def unat_of_nat)
  with assms(2) show "fread f (ftell_end f) = file_data f"
    by (simp add: fread_def)
  with assms(1) show "file_loads env path"
    by (simp add: file_loads_def ftell_end_def)
qed

section \<open>The size in image-to-image mode\<close>

lemma parse_options_width:
  "parse_options prog opts a0 = Inr a \<Longrightarrow>
     width_set a = (width_set a0 \<or> requested_width opts \<noteq> None) \<and>
     width (params a) = (case requested_width opts of None \<Rightarrow> width (params a0) | Some n \<Rightarrow> n)"
proof (induction opts arbitrary: a0)
  case Nil
  then show ?case by simp
next
  case (Cons opt opts)
  then show ?case
    by (cases opt) (auto split: option.splits)
qed

lemma parse_options_height:
  "parse_options prog opts a0 = Inr a \<Longrightarrow>
     height_set a = (height_set a0 \<or> requested_height opts \<noteq> None) \<and>
     height (params a) = (case requested_height opts of None \<Rightarrow> height (params a0) | Some n \<Rightarrow> n)"
proof (induction opts arbitrary: a0)
  case Nil
  then show ?case by simp
next
  case (Cons opt opts)
  then show ?case
    by (cases opt) (auto split: option.splits)
qed

section \<open>The validation of the arguments\<close>

lemma print_usage_stderr: "list_all is_stderr (print_usage prog)"
  by (simp add: print_usage_def)

lemma validate_no_prompt:
  assumes "prompt a = None" and "embeddings_path a = None"
  shows "\<exists>errs. validate prog a = Inl errs \<and> list_all is_stderr errs"
  using assms by (simp add: validate_def print_usage_stderr split: option.splits)

lemma validate_no_output:
  assumes "output_path a = None"
  shows "\<exists>errs. validate prog a = Inl errs \<and> list_all is_stderr errs"
  using assms by (simp add: validate_def print_usage_stderr split: option.splits)

lemma run_invalid:
  assumes "validate prog a = Inl errs"
  shows "run env prog a = \<lparr>events = errs, exit_status = 1, progress = initial_progress\<rparr>"
  using assms by (simp add: run_def)

section \<open>The noise path without embeddings\<close>

lemma run_noise_path:
  assumes "embeddings_path a = None"
  shows "run env prog (a\<lparr>noise_path := x\<rparr>) = run env prog a"
proof -
  have v: "validate prog (a\<lparr>noise_path := x\<rparr>) = validate prog a"
    by (simp add: validate_def cong: option.case_cong if_cong)
  have b: "banner env (a\<lparr>noise_path := x\<rparr>) = banner env a"
    by (simp add: banner_def when_verbose_def fun_eq_iff cong: option.case_cong if_cong)
  have s: "actual_seed env (a\<lparr>noise_path := x\<rparr>) = actual_seed env a"
    by (simp add: actual_seed_def)
  have g: "generate env (a\<lparr>noise_path := x\<rparr>) = generate env a"
    using assms
    by (simp add: generate_def run_img2img_def run_prompt_def when_verbose_def fun_eq_iff Let_def
        cong: option.case_cong if_cong prod.case_cong)
  have f: "finish env (a\<lparr>noise_path := x\<rparr>) = finish env a"
    by (simp add: finish_def when_verbose_def fun_eq_iff Let_def
        cong: option.case_cong if_cong prod.case_cong)
  show ?thesis
    by (simp add: run_def v b s g f when_verbose_def Let_def
        cong: option.case_cong if_cong prod.case_cong sum.case_cong)
qed

lemma apply_opt_noise_path:
  assumes "\<not> is_noise_opt opt"
  shows "apply_opt prog opt (a\<lparr>noise_path := x\<rparr>) =
     (case apply_opt prog opt a of Inl r \<Rightarrow> Inl r | Inr a' \<Rightarrow> Inr (a'\<lparr>noise_path := x\<rparr>))"
  using assms by (cases opt) simp_all

lemma parse_options_noise_path:
  "parse_options prog (without_noise opts) (a\<lparr>noise_path := x\<rparr>) =
     (case parse_options prog opts a of
        Inl r \<Rightarrow> Inl r
      | Inr a' \<Rightarrow> Inr (a'\<lparr>noise_path := x\<rparr>))"
proof (induction opts arbitrary: a)
  case Nil
  then show ?case by (simp add: without_noise_def)
next
  case (Cons opt opts)
  show ?case
  proof (cases "is_noise_opt opt")
    case True
    then obtain s where "opt = Opt_n s" by (cases opt) simp_all
    with Cons [of "a\<lparr>noise_path := Some s\<rparr>"] show ?thesis
      by (simp add: without_noise_def)
  next
    case False
    with Cons show ?thesis
      by (simp add: without_noise_def apply_opt_noise_path split: sum.splits)
  qed
qed

lemma parse_options_embeddings:
  "parse_options prog opts a0 = Inr a \<Longrightarrow> \<not> list_ex is_embeddings_opt opts \<Longrightarrow>
     embeddings_path a = embeddings_path a0"
proof (induction opts arbitrary: a0)
  case Nil
  then show ?case by simp
next
  case (Cons opt opts)
  then show ?case
    by (cases opt) (auto split: sum.splits)
qed

lemma no_fopen_stderr: "list_all is_stderr es \<Longrightarrow> list_all (\<lambda>e. \<not> is_fopen e) es"
  by (induction es) (auto elim: is_stderr.elims)

lemma validate_Inl_all_stderr: "validate prog a = Inl errs \<Longrightarrow> list_all is_stderr errs"
  using print_usage_stderr [of prog]
  by (auto simp: validate_def split: option.splits if_splits)

lemma banner_stderr: "list_all is_stderr (banner env a mdir opath)"
  by (simp add: banner_def when_verbose_def split: option.splits)

lemma no_fopen_engine_call:
  "engine_call env sd c st = (evs, out, st') \<Longrightarrow> list_all (\<lambda>e. \<not> is_fopen e) evs"
  by (auto simp: engine_call_def list_all_iff split: prod.splits)

lemma no_fopen_generate_Inl:
  "generate env a sd st = Inl errs \<Longrightarrow> embeddings_path a = None \<Longrightarrow>
     list_all (\<lambda>e. \<not> is_fopen e) errs"
  by (auto simp: generate_def run_img2img_def run_prompt_def when_verbose_def Let_def
      split: option.splits prod.splits)

lemma no_fopen_generate_Inr:
  "generate env a sd st = Inr (gevs, out, st') \<Longrightarrow> embeddings_path a = None \<Longrightarrow>
     list_all (\<lambda>e. \<not> is_fopen e) gevs"
  by (auto simp: generate_def run_img2img_def run_prompt_def when_verbose_def Let_def
      split: option.splits prod.splits dest!: no_fopen_engine_call)

lemma no_fopen_finish:
  "list_all (\<lambda>e. \<not> is_fopen e) evs \<Longrightarrow>
     list_all (\<lambda>e. \<not> is_fopen e) (events (finish env a opath evs out st))"
  by (auto simp: finish_def when_verbose_def Let_def list_all_iff split: prod.splits option.splits)

lemma fopen_only_embeddings:
  assumes "embeddings_path a = None"
  shows "list_all (\<lambda>e. \<not> is_fopen e) (events (run env prog a))"
proof (cases "validate prog a")
  case (Inl errs)
  then show ?thesis
    by (simp add: run_invalid no_fopen_stderr validate_Inl_all_stderr)
next
  case (Inr r)
  obtain mdir opath where r: "r = (mdir, opath)" by (cases r) auto
  let ?st = "if verbose a then cli_setup_progress initial_progress else initial_progress"
  note b = no_fopen_stderr [OF banner_stderr [of env a mdir opath]]
  show ?thesis
  proof (cases "flux_load_dir env mdir")
    case False
    with Inr r b show ?thesis by (simp add: run_def Let_def)
  next
    case True
    show ?thesis
    proof (cases "generate env a (actual_seed env a) ?st")
      case (Inl errs)
      from no_fopen_generate_Inl [OF Inl assms] Inl Inr r b True show ?thesis
        by (simp add: run_def Let_def when_verbose_def)
    next
      case g: (Inr q)
      obtain gevs out st' where q: "q = (gevs, out, st')" by (cases q) auto
      from no_fopen_generate_Inr [OF g [unfolded q] assms] b
      have "list_all (\<lambda>e. \<not> is_fopen e)
              ((banner env a mdir opath @ [Flux_load_dir mdir]) @
               when_verbose a
                 [Stderr (''Model loaded in '' @ fmt_f env 2 (load_time env) @ '' seconds\<newline>''),
                  Stderr (''Model info: '' @ flux_model_info env @ ''\<newline>\<newline>'')] @
               [Flux_set_seed (actual_seed env a),
                Stderr (''Seed: '' @ fmt_lld (actual_seed env a) @ nl)] @ gevs)"
        by (simp add: when_verbose_def)
      from no_fopen_finish [OF this] g q Inr r True show ?thesis
        by (simp add: run_def Let_def)
    qed
  qed
qed

lemma parse_options_Inl_stderr:
  "parse_options prog opts a = Inl (evs, status) \<Longrightarrow> list_all is_stderr evs"
proof (induction opts arbitrary: a)
  case Nil
  then show ?case by simp
next
  case (Cons opt opts)
  then show ?case
    using print_usage_stderr [of prog]
    by (cases opt) (auto simp: print_version_def split: sum.splits)
qed

lemma main_without_noise:
  assumes "\<not> list_ex is_embeddings_opt opts"
  shows "main env prog (without_noise opts) = main env prog opts
       \<and> list_all (\<lambda>e. \<not> is_fopen e) (events (main env prog opts))"
proof (cases "parse_options prog opts initial_args")
  case (Inl r)
  obtain evs status where r: "r = (evs, status)" by (cases r) auto
  have "parse_options prog (without_noise opts) initial_args = Inl r"
    using parse_options_noise_path [where prog = prog and opts = opts and a = initial_args and x = None] Inl
    by (simp add: initial_args_def)
  with Inl r parse_options_Inl_stderr [of prog opts initial_args evs status] show ?thesis
    by (simp add: main_def no_fopen_stderr)
next
  case (Inr a)
  from parse_options_embeddings [OF Inr assms] have e: "embeddings_path a = None"
    by (simp add: initial_args_def)
  have "parse_options prog (without_noise opts) initial_args = Inr (a\<lparr>noise_path := None\<rparr>)"
    using parse_options_noise_path [where prog = prog and opts = opts and a = initial_args and x = None] Inr
    by (simp add: initial_args_def)
  with Inr e show ?thesis
    by (simp add: main_def run_noise_path fopen_only_embeddings)
qed

lemma embeddings_opt_without_noise:
  "list_ex is_embeddings_opt (without_noise opts) = list_ex is_embeddings_opt opts"
proof (induction opts)
  case Nil
  then show ?case by (simp add: without_noise_def)
next
  case (Cons opt opts)
  then show ?case by (cases opt) (simp_all add: without_noise_def)
qed

section \<open>A failed generation\<close>

lemma quiet_step_callback:
  "list_all quiet (map Stderr (fst (cli_step_callback step tot st)))"
  by (simp add: cli_step_callback_def nl_def)

lemma quiet_substep_callback:
  "list_all quiet (map Stderr (cli_substep_callback kind index tot))"
  by (cases kind) (simp_all add: cli_substep_callback_def)

lemma quiet_deliver: "list_all quiet (map Stderr (fst (deliver e st)))"
  by (cases e) (simp_all add: quiet_step_callback quiet_substep_callback)

lemma quiet_deliver_all: "list_all quiet (map Stderr (fst (deliver_all es st)))"
proof (induction es arbitrary: st)
  case Nil
  then show ?case by simp
next
  case (Cons e es)
  obtain w st1 where d: "deliver e st = (w, st1)" by (cases "deliver e st") auto
  obtain ws st2 where ds: "deliver_all es st1 = (ws, st2)" by (cases "deliver_all es st1") auto
  from quiet_deliver [of e st] d have "list_all quiet (map Stderr w)" by simp
  moreover from Cons [of st1] ds have "list_all quiet (map Stderr ws)" by simp
  ultimately show ?case using d ds by simp
qed

lemma engine_call_shape:
  assumes "engine_call env sd c st = (evs, out, st')"
  shows "gen_calls evs = [c] \<and> list_all quiet evs \<and> out = snd (engine env sd c)
       \<and> st' = snd (deliver_all (fst (engine env sd c)) st)"
  using assms quiet_deliver_all [of "fst (engine env sd c)" st]
  by (auto simp: engine_call_def split: prod.splits)

lemma load_noise_Inr_shape:
  "load_noise env a = Inr (nevs, nz) \<Longrightarrow> gen_calls nevs = [] \<and> list_all quiet nevs"
  by (auto simp: load_noise_def when_verbose_def Let_def split: option.splits if_splits)

lemma run_embeddings_shape:
  assumes "run_embeddings env a sd st epath = Inr (gevs, out, st')"
  shows "\<exists>c. gen_calls gevs = [c] \<and> list_all quiet gevs \<and> out = snd (engine env sd c)
       \<and> st' = snd (deliver_all (fst (engine env sd c)) st)"
proof -
  from assms obtain f where f: "fopen_rb env epath = Some f"
    and ok: "of_nat (length (fread f (ftell_end f))) = ftell_end f"
    by (auto simp: run_embeddings_def Let_def split: option.splits if_splits)
  from assms f ok obtain nevs nz where n: "load_noise env a = Inr (nevs, nz)"
    by (auto simp: run_embeddings_def Let_def split: sum.splits)
  from load_noise_Inr_shape [OF n] have q: "gen_calls nevs = []" "list_all quiet nevs"
    by simp_all
  show ?thesis
  proof (cases nz)
    case None
    with assms f ok n q show ?thesis
      by (auto simp: run_embeddings_def when_verbose_def Let_def split: prod.splits
          dest!: engine_call_shape)
  next
    case (Some z)
    obtain noise noise_size where "z = (noise, noise_size)" by (cases z) auto
    with Some assms f ok n q show ?thesis
      by (auto simp: run_embeddings_def when_verbose_def Let_def split: prod.splits
          dest!: engine_call_shape)
  qed
qed

lemma generate_Inr_shape:
  assumes "generate env a sd st = Inr (gevs, out, st')"
  shows "\<exists>c. gen_calls gevs = [c] \<and> list_all quiet gevs \<and> out = snd (engine env sd c)
       \<and> st' = snd (deliver_all (fst (engine env sd c)) st)"
proof (cases "input_path a")
  case (Some ipath)
  with assms show ?thesis
    by (auto simp: generate_def run_img2img_def when_verbose_def Let_def
        split: option.splits prod.splits dest!: engine_call_shape)
next
  case None
  show ?thesis
  proof (cases "embeddings_path a")
    case (Some epath)
    with assms None have "run_embeddings env a sd st epath = Inr (gevs, out, st')"
      by (simp add: generate_def)
    then show ?thesis by (rule run_embeddings_shape)
  next
    case e: None
    with assms None show ?thesis
      by (auto simp: generate_def run_prompt_def when_verbose_def
          split: prod.splits dest!: engine_call_shape)
  qed
qed

lemma gen_calls_member: "gen_calls es = c # cs \<Longrightarrow> Generation c \<in> set es"
  by (induction es rule: gen_calls.induct) auto

lemma quiet_before_seed: "list_all quiet (before_seed env a mdir opath)"
  by (simp add: before_seed_def banner_def when_verbose_def nl_def split: option.splits)

lemma quiet_seed_report: "list_all quiet (seed_report sd)"
  by (simp add: seed_report_def)

section \<open>The exit status\<close>

lemma run_exit_not_selected:
  assumes "validate prog a = Inr (mdir, opath)" and "flux_load_dir env mdir"
    and "selected_entry env a = None"
  shows "exit_status (run env prog a) = 1"
proof (cases "generate env a (actual_seed env a)
               (if verbose a then cli_setup_progress initial_progress else initial_progress)")
  case (Inl errs)
  with assms(1,2) show ?thesis
    by (simp add: run_def Let_def)
next
  case (Inr r)
  obtain gevs out st' where "r = (gevs, out, st')" by (cases r) auto
  with Inr generate_Inr_calls [of env a _ _ gevs out st'] assms(3) show ?thesis
    by auto
qed

lemma parse_options_Inl_status:
  "parse_options prog opts a0 = Inl (evs, status) \<Longrightarrow> loop_exit opts = Some status"
proof (induction opts arbitrary: a0)
  case Nil
  then show ?case by simp
next
  case (Cons opt opts)
  then show ?case
    by (cases opt) (auto split: sum.splits)
qed

lemma parse_options_Inr_loop:
  "parse_options prog opts a0 = Inr a \<Longrightarrow> loop_exit opts = None"
proof (induction opts arbitrary: a0)
  case Nil
  then show ?case by simp
next
  case (Cons opt opts)
  then show ?case
    by (cases opt) (auto split: sum.splits)
qed

lemma parse_options_output:
  "parse_options prog opts a0 = Inr a \<Longrightarrow> \<not> list_ex is_output_opt opts \<Longrightarrow>
     output_path a = output_path a0"
proof (induction opts arbitrary: a0)
  case Nil
  then show ?case by simp
next
  case (Cons opt opts)
  then show ?case
    by (cases opt) (auto split: sum.splits)
qed

section \<open>The claims\<close>

subsection \<open>Claim C1\<close>

text \<open>
  Claim C1, as amended. No run calls more than one generation entry point of
  the engine. A run that passes the validation and loads the model selects its
  mode by priority: with an input image path, image-to-image, whatever the
  embeddings path; otherwise, with an embeddings path, external embeddings, with
  noise exactly when a noise path is present; otherwise the prompt alone. It
  calls the entry point of that mode, once, when the inputs of the mode load
  (the input image; the embeddings file and the noise file, if one is named);
  when they do not load it calls no entry point and ends with exit status 1.
\<close>

theorem C1_mode_selection:
  "length (gen_calls (events (main env prog opts))) \<le> 1
   \<and> length (gen_calls (events (run env prog a))) \<le> 1
   \<and> (validate prog a = Inr (mdir, opath) \<and> flux_load_dir env mdir \<longrightarrow>
        map entry_point_of (gen_calls (events (run env prog a))) =
          (case selected_entry env a of None \<Rightarrow> [] | Some e \<Rightarrow> [e]))
   \<and> (validate prog a = Inr (mdir, opath) \<and> flux_load_dir env mdir
          \<and> selected_entry env a = None \<longrightarrow>
        gen_calls (events (run env prog a)) = [] \<and> exit_status (run env prog a) = 1)"
proof -
  have "gen_calls (events (run env prog a)) = [] \<and> exit_status (run env prog a) = 1"
    if "validate prog a = Inr (mdir, opath)" and "flux_load_dir env mdir"
      and "selected_entry env a = None"
    using run_gen_calls [OF that(1,2)] run_exit_not_selected [OF that] that(3)
    by simp
  then show ?thesis
    using main_at_most_one [of env prog opts] run_at_most_one [of env prog a]
      run_gen_calls [of prog a mdir opath env]
    by blast
qed

theorem C1_mode_selection_witness:
  "map entry_point_of (gen_calls (events (run demo_env ''flux''
      (demo_args\<lparr>input_path := Some ''photo.png'', embeddings_path := Some ''emb.bin'', noise_path := None, verbose := False\<rparr>))))
    = [EP_img2img]
   \<and> exit_status (run demo_env ''flux''
      (demo_args\<lparr>input_path := Some ''missing.png'', embeddings_path := Some ''emb.bin'', noise_path := None, verbose := False\<rparr>))
    = 1"
proof -
  let ?a = "demo_args\<lparr>input_path := Some ''photo.png'', embeddings_path := Some ''emb.bin'', noise_path := None, verbose := False\<rparr>"
  let ?b = "demo_args\<lparr>input_path := Some ''missing.png'', embeddings_path := Some ''emb.bin'', noise_path := None, verbose := False\<rparr>"
  have l: "flux_load_dir demo_env ''model''" by (simp add: demo_env_def)
  have s: "selected_entry demo_env ?a = Some EP_img2img"
    by (simp add: selected_entry_def demo_env_def)
  have n: "selected_entry demo_env ?b = None"
    by (simp add: selected_entry_def demo_env_def)
  show ?thesis
    using C1_mode_selection [of demo_env "''flux''" "[]" ?a "''model''" "''out.png''"]
      C1_mode_selection [of demo_env "''flux''" "[]" ?b "''model''" "''out.png''"] l s n
    by simp
qed

text \<open>
  As the claim is stated, it fails for a run whose input image does not load:
  an input image path is present, and the run ends without a call of any
  generation entry point.
\<close>

theorem C1_counterexample:
  "parse_options ''flux'' [Opt_d ''model'', Opt_p ''a cat'', Opt_o ''out.png'', Opt_i ''missing.png'']
      initial_args = Inr (demo_args\<lparr>input_path := Some ''missing.png''\<rparr>)
   \<and> gen_calls (events (main demo_env ''flux''
        [Opt_d ''model'', Opt_p ''a cat'', Opt_o ''out.png'', Opt_i ''missing.png''])) = []
   \<and> exit_status (main demo_env ''flux''
        [Opt_d ''model'', Opt_p ''a cat'', Opt_o ''out.png'', Opt_i ''missing.png'']) = 1"
proof -
  have p: "parse_options ''flux'' [Opt_d ''model'', Opt_p ''a cat'', Opt_o ''out.png'', Opt_i ''missing.png'']
      initial_args = Inr (demo_args\<lparr>input_path := Some ''missing.png''\<rparr>)"
    by (simp add: demo_args_def)
  show ?thesis
    unfolding main_def p
    by (simp add: run_defs demo_defs)
qed

subsection \<open>Claim C2\<close>

text \<open>
  Claim C2, as amended. In every run that reaches a generation call, the seed
  used is the requested seed when that is not negative, and the clock reading
  otherwise. The seed is passed to the engine exactly once, and that call and
  the line reporting the seed on standard error come before any generation call,
  whether or not the run is verbose. The seed used is not negative whenever the
  clock reading is not negative.
\<close>

theorem C2_seed_policy:
  assumes "Generation c \<in> set (events (main env prog opts))"
  shows "\<exists>a pre post.
           parse_options prog opts initial_args = Inr a
         \<and> events (main env prog opts) =
             pre @ [Flux_set_seed (actual_seed env a),
                    Stderr (''Seed: '' @ fmt_lld (actual_seed env a) @ nl)] @ post
         \<and> gen_calls pre = []
         \<and> seeds_set (events (main env prog opts)) = [actual_seed env a]
         \<and> (if 0 \<le> sint (seed (params a)) then actual_seed env a = seed (params a)
             else actual_seed env a = time_now env)
         \<and> (0 \<le> sint (time_now env) \<longrightarrow> 0 \<le> sint (actual_seed env a))"
proof -
  from assms obtain a where p: "parse_options prog opts initial_args = Inr a"
    and m: "main env prog opts = run env prog a"
    by (rule reaches_generation_main)
  from assms m obtain mdir opath where v: "validate prog a = Inr (mdir, opath)"
    and l: "flux_load_dir env mdir"
    by (auto elim: reaches_generation_run)
  from run_loaded_shape [OF v l] obtain post where
    e: "events (run env prog a) = before_seed env a mdir opath @ seed_report (actual_seed env a) @ post"
    and s: "seeds_set post = []" by blast
  have 1: "events (main env prog opts) =
             before_seed env a mdir opath @ [Flux_set_seed (actual_seed env a),
                    Stderr (''Seed: '' @ fmt_lld (actual_seed env a) @ nl)] @ post"
    using e m by (simp add: seed_report_def)
  have 2: "seeds_set (events (main env prog opts)) = [actual_seed env a]"
    using e m s by (simp add: seed_report_def)
  have 3: "if 0 \<le> sint (seed (params a)) then actual_seed env a = seed (params a)
             else actual_seed env a = time_now env"
    by (simp add: actual_seed_def word_sle_eq)
  have 4: "0 \<le> sint (time_now env) \<longrightarrow> 0 \<le> sint (actual_seed env a)"
    by (simp add: actual_seed_def word_sle_eq)
  from p 1 2 3 4 show ?thesis
    using gen_calls_before_seed by blast
qed

theorem C2_seed_policy_witness:
  "seeds_set (events (main demo_env ''flux'' [Opt_d ''model'', Opt_p ''a cat'', Opt_o ''out.png'']))
     = [1700000000]"
proof -
  let ?opts = "[Opt_d ''model'', Opt_p ''a cat'', Opt_o ''out.png'']"
  have "Generation (Flux_generate (Some ''a cat'') (params demo_args))
          \<in> set (events (main demo_env ''flux'' ?opts))"
    by (simp add: main_def parse_demo) (simp add: run_defs demo_defs)
  from C2_seed_policy [OF this] obtain a where
    "parse_options ''flux'' ?opts initial_args = Inr a"
    "seeds_set (events (main demo_env ''flux'' ?opts)) = [actual_seed demo_env a]"
    by blast
  moreover from this have "a = demo_args"
    by (simp only: parse_demo sum.inject)
  moreover have "actual_seed demo_env demo_args = 1700000000"
    by (simp add: actual_seed_def demo_defs word_sle_eq)
  ultimately show ?thesis by simp
qed

text \<open>
  As the claim is stated, it fails when the clock reading is negative, as is
  the value \<^verbatim>\<open>(time_t)(-1)\<close> that \<^verbatim>\<open>time\<close> returns when the calendar time is
  not available: with the default seed request, the engine receives the seed -1.
\<close>

theorem C2_counterexample:
  "seed (params demo_args) = - 1
   \<and> gen_calls (events (main (demo_env\<lparr>time_now := - 1\<rparr>) ''flux''
        [Opt_d ''model'', Opt_p ''a cat'', Opt_o ''out.png'']))
       = [Flux_generate (Some ''a cat'') (params demo_args)]
   \<and> seeds_set (events (main (demo_env\<lparr>time_now := - 1\<rparr>) ''flux''
        [Opt_d ''model'', Opt_p ''a cat'', Opt_o ''out.png''])) = [- 1]
   \<and> sint (- 1 :: c_long) < 0"
  by (simp add: main_def parse_demo) (simp add: run_defs demo_defs)

subsection \<open>Claim C3\<close>

text \<open>
  Claim C3. The step protocol of the progress display. A step event writes a
  line break exactly when a line is open (the current step is positive), and
  then the new step line, which holds no line break; the event's step becomes
  the current step. Ending the display writes one line break exactly when a
  line is open, leaves no line open and clears both callbacks. The step events
  (1,5), (2,5), (3,5), delivered to a display that was just set up and followed
  by the end of the display, render three lines: two line breaks between the
  step lines and one at the end.
\<close>

theorem C3_step_protocol:
  "fst (cli_step_callback step tot st) =
     (if line_open st then [nl] else []) @ [''Step '' @ fmt_d step @ ''/'' @ fmt_d tot @ '' '']
   \<and> line_breaks (rendered (fst (cli_step_callback step tot st))) = (if line_open st then 1 else 0)
   \<and> cli_current_step (snd (cli_step_callback step tot st)) = step
   \<and> fst (cli_finish_progress st) = (if line_open st then [nl] else [])
   \<and> \<not> line_open (snd (cli_finish_progress st))
   \<and> \<not> flux_step_callback (snd (cli_finish_progress st))
   \<and> \<not> flux_substep_callback (snd (cli_finish_progress st))
   \<and> (case deliver_all [StepEvent 1 5, StepEvent 2 5, StepEvent 3 5]
               (cli_setup_progress initial_progress) of
         (ws, st1) \<Rightarrow>
           (case cli_finish_progress st1 of
              (fw, st2) \<Rightarrow>
                rendered (ws @ fw) = ''Step 1/5 \<newline>Step 2/5 \<newline>Step 3/5 \<newline>''
                \<and> line_breaks (rendered ws) = 2
                \<and> line_breaks (rendered fw) = 1
                \<and> line_breaks (rendered (ws @ fw)) = 3
                \<and> cli_current_step st2 = 0))"
proof -
  have step_out: "fst (cli_step_callback step tot st) =
     (if line_open st then [nl] else []) @ [''Step '' @ fmt_d step @ ''/'' @ fmt_d tot @ '' '']"
    by (simp add: cli_step_callback_def line_open_def word_sless_alt)
  have step_breaks:
    "line_breaks (rendered (fst (cli_step_callback step tot st))) = (if line_open st then 1 else 0)"
  proof -
    define L where "L = ''Step '' @ fmt_d step @ ''/'' @ fmt_d tot @ '' ''"
    have lb: "line_breaks L = 0"
      unfolding L_def by (rule line_breaks_step_line)
    have nb: "line_breaks nl = 1" "line_breaks [] = 0"
      by (simp_all add: line_breaks_def nl_def)
    have "fst (cli_step_callback step tot st) = (if line_open st then [nl] else []) @ [L]"
      unfolding L_def by (rule step_out)
    then show ?thesis
      by (simp add: rendered_def line_breaks_append lb nb)
  qed
  have step_state: "cli_current_step (snd (cli_step_callback step tot st)) = step"
    by (simp add: cli_step_callback_def)
  have fin_out: "fst (cli_finish_progress st) = (if line_open st then [nl] else [])"
    by (simp add: cli_finish_progress_def line_open_def word_sless_alt)
  have fin_state: "\<not> line_open (snd (cli_finish_progress st))"
    by (simp add: cli_finish_progress_def line_open_def word_sless_alt)
  have fin_cb: "\<not> flux_step_callback (snd (cli_finish_progress st))"
    "\<not> flux_substep_callback (snd (cli_finish_progress st))"
    by (simp_all add: cli_finish_progress_def)
  have d: "fmt_d 1 = ''1''" "fmt_d 2 = ''2''" "fmt_d 3 = ''3''" "fmt_d 5 = ''5''"
    by (simp_all add: fmt_d_def dec_int_def dec_nat.simps)
  have run3: "(case deliver_all [StepEvent 1 5, StepEvent 2 5, StepEvent 3 5]
               (cli_setup_progress initial_progress) of
         (ws, st1) \<Rightarrow>
           (case cli_finish_progress st1 of
              (fw, st2) \<Rightarrow>
                rendered (ws @ fw) = ''Step 1/5 \<newline>Step 2/5 \<newline>Step 3/5 \<newline>''
                \<and> line_breaks (rendered ws) = 2
                \<and> line_breaks (rendered fw) = 1
                \<and> line_breaks (rendered (ws @ fw)) = 3
                \<and> cli_current_step st2 = 0))"
    by (simp add: cli_setup_progress_def initial_progress_def cli_step_callback_def
        cli_finish_progress_def d rendered_def line_breaks_def nl_def word_sless_alt)
  from step_out step_breaks step_state fin_out fin_state fin_cb run3 show ?thesis
    by (intro conjI)
qed

theorem C3_step_protocol_witness:
  "line_breaks (rendered (fst (cli_step_callback 2 5
      \<lparr>cli_current_step = 1, flux_step_callback = True, flux_substep_callback = True\<rparr>))) = 1
   \<and> fst (cli_finish_progress
      \<lparr>cli_current_step = 3, flux_step_callback = True, flux_substep_callback = True\<rparr>) = [nl]"
proof -
  have o1: "line_open \<lparr>cli_current_step = 1, flux_step_callback = True, flux_substep_callback = True\<rparr>"
    and o3: "line_open \<lparr>cli_current_step = 3, flux_step_callback = True, flux_substep_callback = True\<rparr>"
    by (simp_all add: line_open_def)
  from o1 o3 show ?thesis
    using
      C3_step_protocol [of 2 5 "\<lparr>cli_current_step = 1, flux_step_callback = True, flux_substep_callback = True\<rparr>",
        THEN conjunct2, THEN conjunct1]
      C3_step_protocol [of 0 0 "\<lparr>cli_current_step = 3, flux_step_callback = True, flux_substep_callback = True\<rparr>",
        THEN conjunct2, THEN conjunct2, THEN conjunct2, THEN conjunct1]
    by simp
qed

subsection \<open>Claim C4\<close>

text \<open>
  Claim C4. A double-block or final-layer substep event writes exactly one
  marker character; a single-block event with index \<open>i\<close> writes one marker when
  \<open>(i + 1) mod 5 = 0\<close> and nothing otherwise; no substep event writes a line
  break. The single-block events with the indices 0 to 9 write two markers, at
  the indices 4 and 9.
\<close>

theorem C4_substep_markers:
  "cli_substep_callback FLUX_SUBSTEP_DOUBLE_BLOCK i t = [''d'']
   \<and> cli_substep_callback FLUX_SUBSTEP_FINAL_LAYER i t = [''F'']
   \<and> cli_substep_callback FLUX_SUBSTEP_SINGLE_BLOCK i t =
       (if (sint i + 1) mod 5 = 0 then [''s''] else [])
   \<and> line_breaks (rendered (cli_substep_callback k i t)) = 0
   \<and> length (rendered (cli_substep_callback k i t)) \<le> 1
   \<and> map (\<lambda>j. cli_substep_callback FLUX_SUBSTEP_SINGLE_BLOCK j t) [0, 1, 2, 3, 4, 5, 6, 7, 8, 9] =
       [[], [], [], [], [''s''], [], [], [], [], [''s'']]
   \<and> rendered (fst (deliver_all
        (map (\<lambda>j. SubstepEvent FLUX_SUBSTEP_SINGLE_BLOCK j t) [0, 1, 2, 3, 4, 5, 6, 7, 8, 9])
        (cli_setup_progress initial_progress))) = ''ss''"
proof -
  have single: "cli_substep_callback FLUX_SUBSTEP_SINGLE_BLOCK j t =
       (if (sint j + 1) mod 5 = 0 then [''s''] else [])" for j
    by (simp add: cli_substep_callback_def c_rem_5_zero sint_succ_mod5)
  have breaks: "line_breaks (rendered (cli_substep_callback k i t)) = 0"
    by (cases k) (simp_all add: cli_substep_callback_def rendered_def line_breaks_def)
  have len: "length (rendered (cli_substep_callback k i t)) \<le> 1"
    by (cases k) (simp_all add: cli_substep_callback_def rendered_def)
  have ten: "map (\<lambda>j. cli_substep_callback FLUX_SUBSTEP_SINGLE_BLOCK j t) [0, 1, 2, 3, 4, 5, 6, 7, 8, 9] =
       [[], [], [], [], [''s''], [], [], [], [], [''s'']]"
    by (simp add: single)
  have run10: "rendered (fst (deliver_all
        (map (\<lambda>j. SubstepEvent FLUX_SUBSTEP_SINGLE_BLOCK j t) [0, 1, 2, 3, 4, 5, 6, 7, 8, 9])
        (cli_setup_progress initial_progress))) = ''ss''"
    by (simp add: single cli_setup_progress_def initial_progress_def rendered_def)
  show ?thesis
    using single [of i] breaks len ten run10
    by (simp add: cli_substep_callback_def)
qed

theorem C4_substep_markers_witness:
  "cli_substep_callback FLUX_SUBSTEP_SINGLE_BLOCK 4 28 = [''s'']
   \<and> cli_substep_callback FLUX_SUBSTEP_SINGLE_BLOCK 5 28 = []"
  using C4_substep_markers [of 4 28] C4_substep_markers [of 5 28]
  by simp

subsection \<open>Claim C5\<close>

text \<open>
  Claim C5, as amended. The sequence length is inferred from the size of the
  embeddings file as the quotient of the size by \<open>textDim * 4\<close>, rounded down,
  with no check that the size is a multiple: in external-embeddings mode, for
  every embeddings file that is read in full and whose quotient is below
  \<open>2 ^ 31\<close>, the run calls the engine once, with exactly that quotient as the
  sequence length. So a file of \<open>textDim * 4 * K\<close> bytes with \<open>K < 2 ^ 31\<close>
  gives the sequence length \<open>K\<close>, and a partial trailing token is dropped, not
  rejected.
\<close>

theorem C5_sequence_length:
  assumes "validate prog a = Inr (mdir, opath)" and "flux_load_dir env mdir"
    and "input_path a = None" and "embeddings_path a = Some epath"
    and "fopen_rb env epath = Some f" and "length (file_data f) \<le> readable f"
    and "case noise_path a of None \<Rightarrow> True | Some npath \<Rightarrow> file_loads env npath"
    and "length (file_data f) div (unat FLUX_TEXT_DIM * 4) < 2 ^ 31"
  shows "\<exists>c ts. gen_calls (events (run env prog a)) = [c]
           \<and> call_text_seq c = Some ts
           \<and> sint ts = int (length (file_data f) div (unat FLUX_TEXT_DIM * 4))"
proof -
  have td: "unat FLUX_TEXT_DIM * 4 = 30720"
    by (simp add: FLUX_TEXT_DIM_def)
  from assms(8) have small: "length (file_data f) < 2 ^ 64"
    unfolding td by simp
  note fl = file_loads_whole [OF assms(5,6) small]
  let ?st = "if verbose a then cli_setup_progress initial_progress else initial_progress"
  have sel: "selected_entry env a \<noteq> None"
    using assms(3,4,7) fl(1) by (auto simp: selected_entry_def split: option.splits)
  obtain gevs out st' where g: "generate env a (actual_seed env a) ?st = Inr (gevs, out, st')"
  proof (cases "generate env a (actual_seed env a) ?st")
    case (Inl errs)
    from generate_Inl_calls [OF Inl] sel show ?thesis by simp
  next
    case (Inr r)
    with that show ?thesis by (cases r) auto
  qed
  from g assms(3,4) have "run_embeddings env a (actual_seed env a) ?st epath = Inr (gevs, out, st')"
    by (simp add: generate_def)
  from run_embeddings_calls [OF this] assms(5)
  have "\<exists>c. gen_calls gevs = [c] \<and> call_text_seq c = Some (text_seq_of (ftell_end f))"
    by (auto split: option.splits)
  moreover have "gen_calls (events (run env prog a)) = gen_calls gevs"
    using run_calls_generate [OF assms(1,2)] g by simp
  moreover have "sint (text_seq_of (ftell_end f)) = int (length (file_data f) div 30720)"
    unfolding ftell_end_def using assms(8) [unfolded td] by (rule sint_text_seq)
  ultimately show ?thesis
    unfolding td by auto
qed

theorem C5_sequence_length_witness:
  "\<exists>c ts. gen_calls (events (run demo_env ''flux''
        (demo_args\<lparr>input_path := None, embeddings_path := Some ''emb.bin'', noise_path := None, verbose := False\<rparr>))) = [c]
     \<and> call_text_seq c = Some ts \<and> sint ts = 2"
proof -
  let ?a = "demo_args\<lparr>input_path := None, embeddings_path := Some ''emb.bin'', noise_path := None, verbose := False\<rparr>"
  let ?f = "\<lparr>file_data = replicate 61440 (0 :: byte), readable = 61440\<rparr>"
  have "flux_load_dir demo_env ''model''" and "input_path ?a = None"
    and "embeddings_path ?a = Some ''emb.bin''" and "fopen_rb demo_env ''emb.bin'' = Some ?f"
    and "length (file_data ?f) \<le> readable ?f"
    and "case noise_path ?a of None \<Rightarrow> True | Some npath \<Rightarrow> file_loads demo_env npath"
    and "length (file_data ?f) div (unat FLUX_TEXT_DIM * 4) < 2 ^ 31"
    by (simp_all add: demo_env_def FLUX_TEXT_DIM_def)
  from C5_sequence_length [OF validate_demo this]
  show ?thesis by (simp add: FLUX_TEXT_DIM_def)
qed

text \<open>
  As the claim is stated, for every \<open>K\<close>, it fails at \<open>K = 2 ^ 31\<close>: the
  quotient is stored in an \<^verbatim>\<open>int\<close>, and the engine receives a negative
  sequence length.
\<close>

theorem C5_counterexample:
  "length (file_data huge_file) = unat FLUX_TEXT_DIM * 4 * 2 ^ 31
   \<and> map call_text_seq (gen_calls (events (main (demo_env\<lparr>fopen_rb := (\<lambda>p. Some huge_file)\<rparr>) ''flux''
        [Opt_d ''model'', Opt_o ''out.png'', Opt_e ''huge.bin''])))
       = [Some (- 2147483648)]
   \<and> sint (- 2147483648 :: c_int) = - (2 ^ 31)"
  by (simp add: main_def run_defs demo_defs huge_file_def ftell_end_def fread_def text_seq_of_def
      FLUX_TEXT_DIM_def)

subsection \<open>Claim C6\<close>

text \<open>
  Claim C6. In image-to-image mode the width passed to the engine is the input
  image's width exactly when the caller gave no width option, and the caller's
  value (the last one given) otherwise, also when that value is the default or
  differs from the image's width; the flag \<^verbatim>\<open>width_set\<close> records whether the
  option was given. The same holds for the height.
\<close>

theorem C6_explicit_size:
  assumes "parse_options prog opts initial_args = Inr a"
    and "validate prog a = Inr (mdir, opath)" and "flux_load_dir env mdir"
    and "input_path a = Some ipath" and "flux_image_load env ipath = Some input"
  shows "width_set a = (requested_width opts \<noteq> None)
       \<and> height_set a = (requested_height opts \<noteq> None)
       \<and> gen_calls (events (main env prog opts)) =
           [Flux_img2img (prompt a) input
              ((params a)\<lparr>width := (case requested_width opts of None \<Rightarrow> img_width input | Some n \<Rightarrow> n),
                          height := (case requested_height opts of None \<Rightarrow> img_height input | Some n \<Rightarrow> n)\<rparr>)]"
proof -
  note w = parse_options_width [OF assms(1)] and h = parse_options_height [OF assms(1)]
  have ws: "width_set a = (requested_width opts \<noteq> None)"
    and hs: "height_set a = (requested_height opts \<noteq> None)"
    using w h by (simp_all add: initial_args_def)
  let ?st = "if verbose a then cli_setup_progress initial_progress else initial_progress"
  have sel: "selected_entry env a \<noteq> None"
    using assms(4,5) by (simp add: selected_entry_def)
  obtain gevs out st' where g: "generate env a (actual_seed env a) ?st = Inr (gevs, out, st')"
  proof (cases "generate env a (actual_seed env a) ?st")
    case (Inl errs)
    from generate_Inl_calls [OF Inl] sel show ?thesis by simp
  next
    case (Inr r)
    with that show ?thesis by (cases r) auto
  qed
  with assms(4) have "run_img2img env a (actual_seed env a) ?st ipath = Inr (gevs, out, st')"
    by (simp add: generate_def)
  from run_img2img_calls [OF this] assms(5)
  have "gen_calls gevs =
         [Flux_img2img (prompt a) input
            ((params a)\<lparr>width := (if width_set a then width (params a) else img_width input),
                        height := (if height_set a then height (params a) else img_height input)\<rparr>)]"
    by simp
  moreover have "gen_calls (events (main env prog opts)) = gen_calls gevs"
    using run_calls_generate [OF assms(2,3)] g assms(1) by (simp add: main_def)
  moreover have "(if width_set a then width (params a) else img_width input) =
      (case requested_width opts of None \<Rightarrow> img_width input | Some n \<Rightarrow> n)"
    using w ws by (auto split: option.splits)
  moreover have "(if height_set a then height (params a) else img_height input) =
      (case requested_height opts of None \<Rightarrow> img_height input | Some n \<Rightarrow> n)"
    using h hs by (auto split: option.splits)
  ultimately show ?thesis
    using ws hs by simp
qed

theorem C6_explicit_size_witness:
  "gen_calls (events (main demo_env ''flux''
      [Opt_d ''model'', Opt_p ''a cat'', Opt_o ''out.png'', Opt_i ''photo.png'', Opt_W 256])) =
     [Flux_img2img (Some ''a cat'') demo_image
        \<lparr>width = 256, height = 384, num_steps = 4, guidance_scale = Finite 1, seed = - 1,
         strength = Finite (3 / 4)\<rparr>]"
proof -
  let ?opts = "[Opt_d ''model'', Opt_p ''a cat'', Opt_o ''out.png'', Opt_i ''photo.png'', Opt_W 256]"
  let ?a = "demo_args\<lparr>input_path := Some ''photo.png'',
              params := (params demo_args)\<lparr>width := 256\<rparr>, width_set := True\<rparr>"
  have p: "parse_options ''flux'' ?opts initial_args = Inr ?a"
    by (simp add: demo_args_def)
  have v: "validate ''flux'' ?a = Inr (''model'', ''out.png'')"
    by (simp add: validate_def demo_defs word_sless_alt)
  have l: "flux_load_dir demo_env ''model''" and i: "input_path ?a = Some ''photo.png''"
    and f: "flux_image_load demo_env ''photo.png'' = Some demo_image"
    by (simp_all add: demo_env_def)
  from C6_explicit_size [OF p v l i f]
  show ?thesis by (simp add: demo_defs)
qed

subsection \<open>Claim C7\<close>

text \<open>
  Claim C7, as amended. For every invocation that the option loop reads to the
  end and that gives neither an embeddings path nor a prompt, the run ends with
  exit status 1 in the validation, before any resource is acquired: all it does
  is write to standard error. The check is on the presence of the prompt, not on
  its content.
\<close>

theorem C7_prompt_required:
  assumes "parse_options prog opts initial_args = Inr a"
    and "prompt a = None" and "embeddings_path a = None"
  shows "exit_status (main env prog opts) = 1
       \<and> list_all is_stderr (events (main env prog opts))
       \<and> progress (main env prog opts) = initial_progress"
proof -
  from validate_no_prompt [OF assms(2,3)] obtain errs where
    "validate prog a = Inl errs" "list_all is_stderr errs" by blast
  with assms(1) show ?thesis
    by (simp add: main_def run_invalid)
qed

theorem C7_prompt_required_witness:
  "exit_status (main demo_env ''flux'' [Opt_d ''model'', Opt_o ''out.png'']) = 1
   \<and> list_all is_stderr (events (main demo_env ''flux'' [Opt_d ''model'', Opt_o ''out.png'']))"
proof -
  let ?a = "initial_args\<lparr>model_dir := Some ''model'', output_path := Some ''out.png''\<rparr>"
  have "parse_options ''flux'' [Opt_d ''model'', Opt_o ''out.png''] initial_args = Inr ?a"
    and "prompt ?a = None" and "embeddings_path ?a = None"
    by (simp_all add: initial_args_def)
  from C7_prompt_required [OF this] show ?thesis by simp
qed

text \<open>
  As the claim is stated, it fails for an empty prompt: with the empty string
  as the prompt and no embeddings path the validation passes, the model is
  loaded and the run generates an image and ends with exit status 0.
\<close>

theorem C7_counterexample:
  "exit_status (main demo_env ''flux'' [Opt_d ''model'', Opt_p [], Opt_o ''out.png'']) = 0
   \<and> gen_calls (events (main demo_env ''flux'' [Opt_d ''model'', Opt_p [], Opt_o ''out.png'']))
       = [Flux_generate (Some []) (params initial_args)]"
  by (simp add: main_def run_defs demo_defs)

subsection \<open>Claim C8\<close>

text \<open>
  Claim C8, as amended. For every invocation that gives no output path, the run
  makes no attempt to load the model: all it does is write to standard error,
  so that nothing is left to release. Its exit status is 1, unless the option
  loop ends the run first: at \<^verbatim>\<open>-h\<close> or \<^verbatim>\<open>-V\<close> with status 0, at an invalid
  option with status 1. So the status is 1 for every such invocation in which
  no \<^verbatim>\<open>-h\<close> or \<^verbatim>\<open>-V\<close> ends the option loop, and in particular for every one
  that the option loop reads to the end.
\<close>

theorem C8_output_required:
  assumes "\<not> list_ex is_output_opt opts"
  shows "list_all is_stderr (events (main env prog opts))
       \<and> Flux_load_dir mdir \<notin> set (events (main env prog opts))
       \<and> progress (main env prog opts) = initial_progress
       \<and> exit_status (main env prog opts) =
           (case loop_exit opts of None \<Rightarrow> 1 | Some status \<Rightarrow> status)
       \<and> (parse_options prog opts initial_args = Inr a \<longrightarrow>
            output_path a = None \<and> exit_status (main env prog opts) = 1)"
proof (cases "parse_options prog opts initial_args")
  case (Inl r)
  obtain evs status where r: "r = (evs, status)" by (cases r) auto
  from Inl r have e: "list_all is_stderr evs"
    by (auto dest: parse_options_Inl_stderr)
  then have "Flux_load_dir mdir \<notin> set evs"
    by (auto simp: list_all_iff)
  moreover from Inl r have "loop_exit opts = Some status"
    by (auto dest: parse_options_Inl_status)
  ultimately show ?thesis
    using Inl r e by (simp add: main_def)
next
  case (Inr b)
  from parse_options_output [OF Inr assms] have o: "output_path b = None"
    by (simp add: initial_args_def)
  from validate_no_output [OF o] obtain errs where
    e: "validate prog b = Inl errs" "list_all is_stderr errs" by blast
  then have "Flux_load_dir mdir \<notin> set errs"
    by (auto simp: list_all_iff)
  moreover have "loop_exit opts = None"
    using Inr by (rule parse_options_Inr_loop)
  ultimately show ?thesis
    using Inr e o by (auto simp: main_def run_invalid)
qed

theorem C8_output_required_witness:
  "exit_status (main demo_env ''flux'' [Opt_d ''model'', Opt_p ''a cat'']) = 1
   \<and> Flux_load_dir ''model'' \<notin> set (events (main demo_env ''flux'' [Opt_d ''model'', Opt_p ''a cat'']))"
proof -
  have "\<not> list_ex is_output_opt [Opt_d ''model'', Opt_p ''a cat'']"
    by simp
  from C8_output_required [OF this, of demo_env "''flux''" "''model''"] show ?thesis
    by simp
qed

text \<open>
  As the claim is stated, it fails for an invocation without an output path
  that asks for the usage: the option loop prints it and returns 0.
\<close>

theorem C8_counterexample:
  "\<not> list_ex is_output_opt [Opt_d ''model'', Opt_p ''a cat'', Opt_h]
   \<and> exit_status (main demo_env ''flux'' [Opt_d ''model'', Opt_p ''a cat'', Opt_h]) = 0"
  by (simp add: main_def)

subsection \<open>Claim C9\<close>

text \<open>
  Claim C9. In every verbose run whose generation call returns a null output,
  the events end with the end of the progress display (a line break exactly
  when the engine's events left a line open), then the report of the failure on
  standard error, then the release of the model context; the exit status is 1.
  Nothing before that is an error report, a release of the context, a saving of
  an image or a write to standard output, so that the failure is reported once,
  the context is released once and no image is saved. The progress state is
  left with no line open and both callbacks cleared.
\<close>

theorem C9_generation_failure:
  assumes "parse_options prog opts initial_args = Inr a" and "verbose a"
    and "gen_calls (events (main env prog opts)) = [c]"
    and "snd (engine env (actual_seed env a) c) = None"
  shows "(\<exists>pre. events (main env prog opts) =
              pre @ (if line_open (progress_after env (actual_seed env a) c) then [Stderr nl] else []) @
              [failure_report env, Flux_free]
            \<and> list_all quiet pre)
       \<and> progress (main env prog opts) =
           snd (cli_finish_progress (progress_after env (actual_seed env a) c))
       \<and> \<not> line_open (progress (main env prog opts))
       \<and> \<not> flux_step_callback (progress (main env prog opts))
       \<and> \<not> flux_substep_callback (progress (main env prog opts))
       \<and> exit_status (main env prog opts) = 1"
proof -
  define st' where "st' = progress_after env (actual_seed env a) c"
  have m: "main env prog opts = run env prog a"
    using assms(1) by (simp add: main_def)
  from assms(3) m have "Generation c \<in> set (events (run env prog a))"
    by (metis gen_calls_empty_iff list.distinct(1) list.set_intros(1) gen_calls_member)
  then obtain mdir opath where v: "validate prog a = Inr (mdir, opath)"
    and l: "flux_load_dir env mdir"
    by (rule reaches_generation_run)
  let ?sd = "actual_seed env a"
  let ?st = "cli_setup_progress initial_progress"
  obtain gevs out st1 where g: "generate env a ?sd ?st = Inr (gevs, out, st1)"
  proof (cases "generate env a ?sd ?st")
    case (Inl errs)
    with run_calls_generate [OF v l] assms(2,3) m show ?thesis by simp
  next
    case (Inr r)
    with that show ?thesis by (cases r) auto
  qed
  from run_calls_generate [OF v l] g assms(2,3) m have gc: "gen_calls gevs = [c]" by simp
  from generate_Inr_shape [OF g] gc assms(4)
  have q: "list_all quiet gevs" and o: "out = None" and s: "st1 = st'"
    by (auto simp: st'_def progress_after_def)
  let ?pre = "before_seed env a mdir opath @ seed_report ?sd @ gevs"
  have fin: "map Stderr (fst (cli_finish_progress st')) = (if line_open st' then [Stderr nl] else [])"
    by (simp add: cli_finish_progress_def line_open_def word_sless_alt)
  have "run env prog a =
      \<lparr>events = ?pre @ (if line_open st' then [Stderr nl] else []) @ [failure_report env, Flux_free],
       exit_status = 1, progress = snd (cli_finish_progress st')\<rparr>"
    using v l g o s assms(2) fin
    by (simp add: run_def finish_def Let_def before_seed_def seed_report_def failure_report_def
        case_prod_beta)
  moreover have "list_all quiet ?pre"
    using q by (simp add: quiet_before_seed quiet_seed_report)
  moreover have "\<not> line_open (snd (cli_finish_progress st'))"
    "\<not> flux_step_callback (snd (cli_finish_progress st'))"
    "\<not> flux_substep_callback (snd (cli_finish_progress st'))"
    by (simp_all add: cli_finish_progress_def line_open_def word_sless_alt)
  ultimately show ?thesis
    unfolding m st'_def [symmetric] by auto
qed

theorem C9_generation_failure_witness:
  "exit_status (main failing_env ''flux'' [Opt_d ''model'', Opt_p ''a cat'', Opt_o ''out.png'', Opt_v]) = 1
   \<and> progress (main failing_env ''flux'' [Opt_d ''model'', Opt_p ''a cat'', Opt_o ''out.png'', Opt_v])
       = \<lparr>cli_current_step = 0, flux_step_callback = False, flux_substep_callback = False\<rparr>"
proof -
  let ?opts = "[Opt_d ''model'', Opt_p ''a cat'', Opt_o ''out.png'', Opt_v]"
  let ?a = "demo_args\<lparr>verbose := True\<rparr>"
  let ?c = "Flux_generate (Some ''a cat'') (params demo_args)"
  have p: "parse_options ''flux'' ?opts initial_args = Inr ?a"
    by (simp add: demo_args_def)
  have v: "verbose ?a" by simp
  have g: "gen_calls (events (main failing_env ''flux'' ?opts)) = [?c]"
    by (simp add: main_def p) (simp add: run_defs failing_env_def demo_defs)
  have n: "snd (engine failing_env (actual_seed failing_env ?a) ?c) = None"
    by (simp add: failing_env_def)
  have s: "snd (cli_finish_progress (progress_after failing_env (actual_seed failing_env ?a) ?c))
      = \<lparr>cli_current_step = 0, flux_step_callback = False, flux_substep_callback = False\<rparr>"
    by (simp add: progress_after_def failing_env_def cli_finish_progress_def cli_setup_progress_def
        initial_progress_def cli_step_callback_def word_sless_alt)
  from C9_generation_failure [OF p v g n] s show ?thesis
    by simp
qed

subsection \<open>Claim C10\<close>

text \<open>
  Claim C10. Two invocations without an embeddings option that differ only in
  their noise options have the same outcome: the same events in the same order,
  the same exit status and the same progress state. In particular the outcome
  is that of the invocation with the noise options removed, and such a run
  opens no file with \<^verbatim>\<open>fopen\<close>, so that the noise file is never opened.
\<close>

theorem C10_noise_ignored:
  assumes "\<not> list_ex is_embeddings_opt opts" and "without_noise opts' = without_noise opts"
  shows "main env prog opts' = main env prog opts
       \<and> main env prog (without_noise opts) = main env prog opts
       \<and> list_all (\<lambda>e. \<not> is_fopen e) (events (main env prog opts))"
proof -
  from assms have "\<not> list_ex is_embeddings_opt opts'"
    by (metis embeddings_opt_without_noise)
  from main_without_noise [OF this, of env prog] main_without_noise [OF assms(1), of env prog] assms(2)
  show ?thesis by simp
qed

theorem C10_noise_ignored_witness:
  "main demo_env ''flux'' [Opt_d ''model'', Opt_p ''a cat'', Opt_o ''out.png'']
     = main demo_env ''flux'' [Opt_d ''model'', Opt_n ''noise.bin'', Opt_p ''a cat'', Opt_o ''out.png'']"
proof -
  have "\<not> list_ex is_embeddings_opt [Opt_d ''model'', Opt_n ''noise.bin'', Opt_p ''a cat'', Opt_o ''out.png'']"
    by simp
  moreover have "without_noise [Opt_d ''model'', Opt_p ''a cat'', Opt_o ''out.png''] =
      without_noise [Opt_d ''model'', Opt_n ''noise.bin'', Opt_p ''a cat'', Opt_o ''out.png'']"
    by (simp add: without_noise_def)
  ultimately show ?thesis
    using C10_noise_ignored [of "[Opt_d ''model'', Opt_n ''noise.bin'', Opt_p ''a cat'', Opt_o ''out.png'']"
        "[Opt_d ''model'', Opt_p ''a cat'', Opt_o ''out.png'']" demo_env "''flux''"]
    by blast
qed

end
